theory Spec2Isabelle
  imports Main "HOL-Library.Multiset" "HOL-Library.Char_ord" "HOL-Library.List_Lexorder"
begin

section \<open>The export of a service and its revisions (pkg/commands/service/export.go)\<close>

text \<open>
  The theory embeds the functions of \<^verbatim>\<open>export.go\<close> that select, order, sanitize and
  assemble the revisions of a service. Go maps and slices are reference types, and the
  builders of the file share them between their arguments and their results, so maps and
  the backing arrays of traffic slices live in an explicit store and the objects hold
  addresses. Every function that deletes a key, writes an element or allocates takes the
  store and returns the new one.
\<close>

subsection \<open>Objects\<close>

text \<open>
  A map-typed field (\<^verbatim>\<open>map[string]string\<close>) is \<open>None\<close> for the nil map and
  \<open>Some a\<close> for the map at address \<open>a\<close>; likewise a slice-typed field for its array.
\<close>

type_synonym mapref = "nat option"
type_synonym sliceref = "nat option"

record TypeMeta =
  Kind :: string
  APIVersion :: string

text \<open>
  \<^verbatim>\<open>metav1.ObjectMeta\<close>: the three fields the file reads, and \<open>Namespace\<close> for the
  fields it never names (they are copied with the struct and zero in a struct literal).
\<close>

record ObjectMeta =
  Name :: string
  Namespace :: string
  Labels :: mapref
  Annotations :: mapref

text \<open>
  \<^verbatim>\<open>servingv1.TrafficTarget\<close>. The pointer fields are only read by the file, so a
  pointer is the option of its value.
\<close>

record TrafficTarget =
  Tag :: string
  RevisionName :: string
  ConfigurationName :: string
  LatestRevision :: "bool option"
  Percent :: "int option"

record RouteSpec =
  Traffic :: sliceref

text \<open>
  The revision spec (the pod) is copied as a whole and never inspected: the model is
  parametric in its type \<open>'s\<close>.
\<close>

record 's RevisionTemplateSpec =
  ObjectMeta :: ObjectMeta
  Spec :: 's

record 's Revision =
  TypeMeta :: TypeMeta
  ObjectMeta :: ObjectMeta
  Spec :: 's

text \<open>\<^verbatim>\<open>ServiceSpec\<close> embeds \<^verbatim>\<open>ConfigurationSpec\<close> (the template) and \<^verbatim>\<open>RouteSpec\<close>.\<close>

record 's ServiceSpec =
  Template :: "'s RevisionTemplateSpec"
  RouteSpec :: RouteSpec

record ServiceStatus =
  LatestReadyRevisionName :: string
  LatestCreatedRevisionName :: string

record 's Service =
  TypeMeta :: TypeMeta
  ObjectMeta :: ObjectMeta
  Spec :: "'s ServiceSpec"
  Status :: ServiceStatus

record 's ServiceList =
  TypeMeta :: TypeMeta
  Items :: "'s Service list"

record 's ExportSpec =
  Service :: "'s Service"
  Revisions :: "'s Revision list"

record 's Export =
  TypeMeta :: TypeMeta
  Spec :: "'s ExportSpec"

text \<open>\<^verbatim>\<open>runtime.Object\<close>, for the three kinds of object the file hands to the printer.\<close>

datatype 's Object =
  ServiceObject "'s Service"
| ServiceListObject "'s ServiceList"
| ExportObject "'s Export"

text \<open>A Go \<^verbatim>\<open>error\<close> is its message.\<close>

datatype error = Error string

subsection \<open>The store\<close>

text \<open>
  \<open>maps h a\<close> is the content of the map at address \<open>a\<close>, \<open>arrays h a\<close> the array of
  traffic targets at \<open>a\<close>. \<open>nextMap\<close> and \<open>nextArray\<close> are the addresses the next
  allocation returns.
\<close>

record store =
  maps :: "nat \<Rightarrow> string \<rightharpoonup> string"
  arrays :: "nat \<Rightarrow> TrafficTarget list"
  nextMap :: nat
  nextArray :: nat

text \<open>\<^verbatim>\<open>m[k]\<close> on a \<^verbatim>\<open>map[string]string\<close>: the empty string for a missing key or a nil map.\<close>

definition index :: "store \<Rightarrow> mapref \<Rightarrow> string \<Rightarrow> string" where
  "index h m k =
     (case m of None \<Rightarrow> []
      | Some a \<Rightarrow> (case maps h a k of None \<Rightarrow> [] | Some v \<Rightarrow> v))"

text \<open>The content of a map as a value: the nil map has no entry.\<close>

definition entries :: "store \<Rightarrow> mapref \<Rightarrow> string \<rightharpoonup> string" where
  "entries h m = (case m of None \<Rightarrow> Map.empty | Some a \<Rightarrow> maps h a)"

text \<open>\<^verbatim>\<open>delete(m, k)\<close>: removes the key from the map itself; a no-op on the nil map.\<close>

definition delete :: "store \<Rightarrow> mapref \<Rightarrow> string \<Rightarrow> store" where
  "delete h m k =
     (case m of None \<Rightarrow> h
      | Some a \<Rightarrow> h\<lparr>maps := (maps h)(a := (maps h a)(k := None))\<rparr>)"

text \<open>The elements of a slice: none for the nil slice.\<close>

definition elems :: "store \<Rightarrow> sliceref \<Rightarrow> TrafficTarget list" where
  "elems h s = (case s of None \<Rightarrow> [] | Some a \<Rightarrow> arrays h a)"

subsection \<open>Deep copies\<close>

text \<open>
  The generated \<^verbatim>\<open>DeepCopy\<close> methods of the API types copy every map and slice into a
  newly allocated one; a nil map or slice stays nil.
\<close>

definition copyMap :: "store \<Rightarrow> mapref \<Rightarrow> store \<times> mapref" where
  "copyMap h m =
     (case m of None \<Rightarrow> (h, None)
      | Some a \<Rightarrow>
          (h\<lparr>maps := (maps h)(nextMap h := maps h a), nextMap := Suc (nextMap h)\<rparr>,
           Some (nextMap h)))"

definition copySlice :: "store \<Rightarrow> sliceref \<Rightarrow> store \<times> sliceref" where
  "copySlice h s =
     (case s of None \<Rightarrow> (h, None)
      | Some a \<Rightarrow>
          (h\<lparr>arrays := (arrays h)(nextArray h := arrays h a), nextArray := Suc (nextArray h)\<rparr>,
           Some (nextArray h)))"

definition DeepCopy_ObjectMeta :: "store \<Rightarrow> ObjectMeta \<Rightarrow> store \<times> ObjectMeta" where
  "DeepCopy_ObjectMeta h om =
     (let (h1, ls) = copyMap h (Labels om);
          (h2, as) = copyMap h1 (Annotations om)
      in (h2, om\<lparr>Labels := ls, Annotations := as\<rparr>))"

definition DeepCopy_Revision :: "store \<Rightarrow> 's Revision \<Rightarrow> store \<times> 's Revision" where
  "DeepCopy_Revision h r =
     (let (h1, om) = DeepCopy_ObjectMeta h (Revision.ObjectMeta r)
      in (h1, r\<lparr>Revision.ObjectMeta := om\<rparr>))"

definition DeepCopy_Service :: "store \<Rightarrow> 's Service \<Rightarrow> store \<times> 's Service" where
  "DeepCopy_Service h s =
     (let (h1, om) = DeepCopy_ObjectMeta h (Service.ObjectMeta s);
          t = Template (Service.Spec s);
          (h2, tom) = DeepCopy_ObjectMeta h1 (RevisionTemplateSpec.ObjectMeta t);
          (h3, tr) = copySlice h2 (Traffic (RouteSpec (Service.Spec s)))
      in (h3, s\<lparr>Service.ObjectMeta := om,
                Service.Spec :=
                  \<lparr>Template = t\<lparr>RevisionTemplateSpec.ObjectMeta := tom\<rparr>,
                   RouteSpec = \<lparr>Traffic = tr\<rparr>\<rparr>\<rparr>))"

subsection \<open>The deny-lists\<close>

text \<open>
  Modelled from the spec: the update-timestamp annotation key of the revision deny-list.
  The source names it \<^verbatim>\<open>clientserving.UpdateTimestampAnnotationKey\<close>, declared in
  \<^verbatim>\<open>pkg/serving\<close>, which is not among the sources. No proof below looks at its value.
\<close>

definition UpdateTimestampAnnotationKey :: string where
  "UpdateTimestampAnnotationKey = ''client.knative.dev/updateTimestamp''"

definition IgnoredServiceAnnotations :: "string list" where
  "IgnoredServiceAnnotations =
     [''serving.knative.dev/creator'',
      ''serving.knative.dev/lastModifier'',
      ''kubectl.kubernetes.io/last-applied-configuration'']"

definition IgnoredRevisionAnnotations :: "string list" where
  "IgnoredRevisionAnnotations =
     [''serving.knative.dev/lastPinned'',
      ''serving.knative.dev/creator'',
      ''serving.knative.dev/routingStateModified'',
      UpdateTimestampAnnotationKey]"

definition IgnoredServiceLabels :: "string list" where
  "IgnoredServiceLabels =
     [''serving.knative.dev/configurationUID'',
      ''serving.knative.dev/serviceUID'']"

definition IgnoredRevisionLabels :: "string list" where
  "IgnoredRevisionLabels =
     [''serving.knative.dev/configurationUID'',
      ''serving.knative.dev/serviceUID'']"

definition ModeReplay :: string where
  "ModeReplay = ''replay''"

definition ModeExport :: string where
  "ModeExport = ''export''"

subsection \<open>The strip functions\<close>

text \<open>
  Each is a loop over a deny-list that deletes the key from the map its argument points
  to. The argument is a pointer to the object: the object's own fields stay as they are,
  the map in the store changes.
\<close>

definition stripIgnoredAnnotationsFromService :: "store \<Rightarrow> 's Service \<Rightarrow> store" where
  "stripIgnoredAnnotationsFromService h svc =
     foldl (\<lambda>h annotation. delete h (Annotations (Service.ObjectMeta svc)) annotation)
       h IgnoredServiceAnnotations"

definition stripIgnoredAnnotationsFromRevision :: "store \<Rightarrow> 's Revision \<Rightarrow> store" where
  "stripIgnoredAnnotationsFromRevision h revision =
     foldl (\<lambda>h annotation. delete h (Annotations (Revision.ObjectMeta revision)) annotation)
       h IgnoredRevisionAnnotations"

definition stripIgnoredAnnotationsFromRevisionTemplate ::
  "store \<Rightarrow> 's RevisionTemplateSpec \<Rightarrow> store" where
  "stripIgnoredAnnotationsFromRevisionTemplate h template =
     foldl (\<lambda>h annotation.
              delete h (Annotations (RevisionTemplateSpec.ObjectMeta template)) annotation)
       h IgnoredRevisionAnnotations"

definition stripIgnoredLabelsFromService :: "store \<Rightarrow> 's Service \<Rightarrow> store" where
  "stripIgnoredLabelsFromService h svc =
     foldl (\<lambda>h label. delete h (Labels (Service.ObjectMeta svc)) label)
       h IgnoredServiceLabels"

definition stripIgnoredLabelsFromRevision :: "store \<Rightarrow> 's Revision \<Rightarrow> store" where
  "stripIgnoredLabelsFromRevision h r =
     foldl (\<lambda>h label. delete h (Labels (Revision.ObjectMeta r)) label)
       h IgnoredRevisionLabels"

definition stripIgnoredLabelsFromRevisionTemplate ::
  "store \<Rightarrow> 's RevisionTemplateSpec \<Rightarrow> store" where
  "stripIgnoredLabelsFromRevisionTemplate h template =
     foldl (\<lambda>h label. delete h (Labels (RevisionTemplateSpec.ObjectMeta template)) label)
       h IgnoredRevisionLabels"

subsection \<open>The builders\<close>

text \<open>
  \<^verbatim>\<open>exportLatestService\<close>. The struct literal takes the name and the two map
  references of the live service; the template's metadata is copied as a struct, so its
  map references are the live template's. With routes, the route spec is copied as a
  struct too: the traffic slice of the result has the live service's backing array, and
  the loop writes into it.
\<close>

definition setLatestRevisionName :: "sliceref \<Rightarrow> string \<Rightarrow> store \<Rightarrow> nat \<Rightarrow> store" where
  "setLatestRevisionName s latest h i =
     (case s of None \<Rightarrow> h
      | Some a \<Rightarrow>
          (let t = arrays h a ! i in
           if (case LatestRevision t of None \<Rightarrow> False | Some latestRevision \<Rightarrow> latestRevision)
           then h\<lparr>arrays := (arrays h)(a := (arrays h a)[i := t\<lparr>RevisionName := latest\<rparr>])\<rparr>
           else h))"

definition exportLatestService :: "store \<Rightarrow> 's Service \<Rightarrow> bool \<Rightarrow> store \<times> 's Service" where
  "exportLatestService h latestSvc withRoutes =
     (let exportedSvc =
            \<lparr>Service.TypeMeta = Service.TypeMeta latestSvc,
             Service.ObjectMeta =
               \<lparr>Name = Name (Service.ObjectMeta latestSvc),
                Namespace = [],
                Labels = Labels (Service.ObjectMeta latestSvc),
                Annotations = Annotations (Service.ObjectMeta latestSvc)\<rparr>,
             Service.Spec =
               \<lparr>Template =
                  \<lparr>RevisionTemplateSpec.ObjectMeta =
                     RevisionTemplateSpec.ObjectMeta (Template (Service.Spec latestSvc)),
                   RevisionTemplateSpec.Spec =
                     RevisionTemplateSpec.Spec (Template (Service.Spec latestSvc))\<rparr>,
                RouteSpec =
                  (if withRoutes then RouteSpec (Service.Spec latestSvc)
                   else \<lparr>Traffic = None\<rparr>)\<rparr>,
             Service.Status =
               \<lparr>LatestReadyRevisionName = [], LatestCreatedRevisionName = []\<rparr>\<rparr>;
          h1 = (if withRoutes
                then foldl
                       (setLatestRevisionName (Traffic (RouteSpec (Service.Spec exportedSvc)))
                          (LatestReadyRevisionName (Service.Status latestSvc)))
                       h [0..<length (elems h (Traffic (RouteSpec (Service.Spec exportedSvc))))]
                else h);
          h2 = stripIgnoredAnnotationsFromService h1 exportedSvc;
          h3 = stripIgnoredLabelsFromService h2 exportedSvc;
          h4 = stripIgnoredAnnotationsFromRevisionTemplate h3 (Template (Service.Spec exportedSvc));
          h5 = stripIgnoredLabelsFromRevisionTemplate h4 (Template (Service.Spec exportedSvc))
      in (h5, exportedSvc))"

definition exportRevision :: "store \<Rightarrow> 's Revision \<Rightarrow> store \<times> 's Revision" where
  "exportRevision h revision =
     (let exportedRevision =
            \<lparr>Revision.TypeMeta = Revision.TypeMeta revision,
             Revision.ObjectMeta =
               \<lparr>Name = Name (Revision.ObjectMeta revision),
                Namespace = [],
                Labels = Labels (Revision.ObjectMeta revision),
                Annotations = Annotations (Revision.ObjectMeta revision)\<rparr>,
             Revision.Spec = Revision.Spec revision\<rparr>;
          h1 = stripIgnoredAnnotationsFromRevision h exportedRevision;
          h2 = stripIgnoredLabelsFromRevision h1 exportedRevision
      in (h2, exportedRevision))"

text \<open>
  \<^verbatim>\<open>constructServiceFromRevision\<close>. The revision is passed by pointer: its annotation
  map is stripped in the store, and the template of the result takes the reference to
  that map, and the revision's name, in place of the live template's. The struct literal
  and the two assignments read and write no map, so they are one record here, built
  between the two strips. The last step strips the service annotations; the function
  calls no label strip.
\<close>

definition constructServiceFromRevision ::
  "store \<Rightarrow> 's Service \<Rightarrow> 's Revision \<Rightarrow> store \<times> 's Service" where
  "constructServiceFromRevision h latestSvc revision =
     (let h1 = stripIgnoredAnnotationsFromRevision h revision;
          exportedSvc =
            \<lparr>Service.TypeMeta = Service.TypeMeta latestSvc,
             Service.ObjectMeta =
               \<lparr>Name = Name (Service.ObjectMeta latestSvc),
                Namespace = [],
                Labels = Labels (Service.ObjectMeta latestSvc),
                Annotations = Annotations (Service.ObjectMeta latestSvc)\<rparr>,
             Service.Spec =
               \<lparr>Template =
                  \<lparr>RevisionTemplateSpec.ObjectMeta =
                     (RevisionTemplateSpec.ObjectMeta (Template (Service.Spec latestSvc)))
                       \<lparr>Annotations := Annotations (Revision.ObjectMeta revision),
                        Name := Name (Revision.ObjectMeta revision)\<rparr>,
                   RevisionTemplateSpec.Spec = Revision.Spec revision\<rparr>,
                RouteSpec = \<lparr>Traffic = None\<rparr>\<rparr>,
             Service.Status =
               \<lparr>LatestReadyRevisionName = [], LatestCreatedRevisionName = []\<rparr>\<rparr>;
          h2 = stripIgnoredAnnotationsFromService h1 exportedSvc
      in (h2, exportedSvc))"

subsection \<open>The routed revisions\<close>

text \<open>
  \<^verbatim>\<open>getRoutedRevisions\<close> builds a fresh \<^verbatim>\<open>map[string]bool\<close> that only the
  assemblers read, so it is a value. \<open>routed m n\<close> is the read \<^verbatim>\<open>revsMap[n]\<close>: false
  for a missing key.
\<close>

definition getRoutedRevisions :: "store \<Rightarrow> 's Service \<Rightarrow> string \<rightharpoonup> bool" where
  "getRoutedRevisions h latestSvc =
     foldl (\<lambda>revsMap traffic.
              if RevisionName traffic \<noteq> [] then revsMap(RevisionName traffic \<mapsto> True)
              else revsMap)
       Map.empty (elems h (Traffic (RouteSpec (Service.Spec latestSvc))))"

definition routed :: "(string \<rightharpoonup> bool) \<Rightarrow> string \<Rightarrow> bool" where
  "routed revsMap n = (case revsMap n of None \<Rightarrow> False | Some b \<Rightarrow> b)"

subsection \<open>Sorting the revisions\<close>

text \<open>
  \<^verbatim>\<open>strconv.Atoi\<close> of the Go library, for the 64-bit \<^verbatim>\<open>int\<close>: an optional sign, then
  at least one decimal digit and nothing else; a value outside the range of the type is
  an error as well. \<open>None\<close> is the error.
\<close>

definition isDigit :: "char \<Rightarrow> bool" where
  "isDigit c = (CHR ''0'' \<le> c \<and> c \<le> CHR ''9'')"

fun digits :: "int \<Rightarrow> string \<Rightarrow> int option" where
  "digits n [] = Some n"
| "digits n (c # cs) =
     (if isDigit c then digits (n * 10 + (of_char c - 48)) cs else None)"

definition Atoi :: "string \<Rightarrow> int option" where
  "Atoi s =
     (let neg = (s \<noteq> [] \<and> hd s = CHR ''-'');
          ds = (if s \<noteq> [] \<and> (hd s = CHR ''-'' \<or> hd s = CHR ''+'') then tl s else s)
      in if ds = [] then None
         else (case digits 0 ds of
                 None \<Rightarrow> None
               | Some n \<Rightarrow>
                   (let v = (if neg then - n else n)
                    in if - (2 ^ 63) \<le> v \<and> v < 2 ^ 63 then Some v else None)))"

text \<open>\<^verbatim>\<open>serving.ConfigurationGenerationLabelKey\<close> of the serving library.\<close>

definition ConfigurationGenerationLabelKey :: string where
  "ConfigurationGenerationLabelKey = ''serving.knative.dev/configurationGeneration''"

text \<open>
  \<^verbatim>\<open>revisionListSortFunc\<close>: the closure compares the elements at two indices of the
  list being sorted; here it takes the two elements. Strings compare byte by byte.
\<close>

definition revisionListSortFunc :: "store \<Rightarrow> 's Revision \<Rightarrow> 's Revision \<Rightarrow> bool" where
  "revisionListSortFunc h a b =
     (case Atoi (index h (Labels (Revision.ObjectMeta a)) ConfigurationGenerationLabelKey) of
        None \<Rightarrow> Name (Revision.ObjectMeta a) > Name (Revision.ObjectMeta b)
      | Some agen \<Rightarrow>
          (case Atoi (index h (Labels (Revision.ObjectMeta b)) ConfigurationGenerationLabelKey) of
             None \<Rightarrow> Name (Revision.ObjectMeta a) > Name (Revision.ObjectMeta b)
           | Some bgen \<Rightarrow>
               if agen \<noteq> bgen then agen < bgen
               else Name (Revision.ObjectMeta a) > Name (Revision.ObjectMeta b)))"

text \<open>
  \<^verbatim>\<open>sort.SliceStable\<close> of the Go library sorts in place. Its algorithm is an insertion
  sort of every block of 20 elements, followed by stable merges of the blocks; on a
  slice of at most 20 elements it is the insertion sort below and nothing else:
  \<^verbatim>\<open>
  for i := a + 1; i < b; i++ {
      for j := i; j > a && data.Less(j, j-1); j-- {
          data.Swap(j, j-1)
      }
  }
  \<close>
  The merges of a longer slice are not modelled: \<open>SliceStable\<close> is the insertion sort
  at every length. Where the comparison is a strict weak order on the elements, this is
  the result of every stable sort (lemma \<open>stable_sort_unique\<close> below), so of the
  library's too. On a slice of more than 20 elements with a comparison that is not a
  strict weak order the library's merges can leave another order than the insertion
  sort, and \<open>SliceStable\<close> is not the library's result there: every statement below
  about the order of a sorted list is made for the lists of \<open>sortModelled\<close> only
  (at most 20 elements, or a strict weak order). At every length the result is a
  permutation of the slice, as the library's is.
  The closure \<^verbatim>\<open>less(i, j)\<close> reads the slice being sorted, so the comparison is
  applied to the elements that stand at the two indices at that moment.
\<close>

definition swap :: "'a list \<Rightarrow> nat \<Rightarrow> nat \<Rightarrow> 'a list" where
  "swap xs i j = xs[i := xs ! j, j := xs ! i]"

function insertionSort_inner :: "('a \<Rightarrow> 'a \<Rightarrow> bool) \<Rightarrow> 'a list \<Rightarrow> nat \<Rightarrow> 'a list" where
  "insertionSort_inner lt xs j =
     (if j > 0 \<and> lt (xs ! j) (xs ! (j - 1))
      then insertionSort_inner lt (swap xs j (j - 1)) (j - 1)
      else xs)"
  by pat_completeness auto
termination
  by (relation "measure (\<lambda>(lt, xs, j). j)") auto

declare insertionSort_inner.simps [simp del]

definition insertionSort :: "('a \<Rightarrow> 'a \<Rightarrow> bool) \<Rightarrow> 'a list \<Rightarrow> 'a list" where
  "insertionSort lt xs = foldl (insertionSort_inner lt) xs [1..<length xs]"

definition SliceStable :: "('a \<Rightarrow> 'a \<Rightarrow> bool) \<Rightarrow> 'a list \<Rightarrow> 'a list" where
  "SliceStable lt xs = insertionSort lt xs"

definition sortRevisions :: "store \<Rightarrow> 's Revision list \<Rightarrow> 's Revision list" where
  "sortRevisions h items = SliceStable (revisionListSortFunc h) items"

subsection \<open>The assemblers\<close>

text \<open>
  \<^verbatim>\<open>client.ListRevisions\<close> is outside the file: the models take what the query returns,
  an error or the list of revisions, whose maps are in the store. The query is made only
  where the source makes it.
\<close>

definition getRevisionsToExport ::
  "store \<Rightarrow> 's Service \<Rightarrow> error + 's Revision list
     \<Rightarrow> error + 's Revision list \<times> (string \<rightharpoonup> bool)" where
  "getRevisionsToExport h latestSvc listRevisions =
     (let revsMap = getRoutedRevisions h latestSvc in
      case listRevisions of
        Inl err \<Rightarrow> Inl err
      | Inr items \<Rightarrow>
          if length items = 0
          then Inl (Error (''no revisions found for the service '' @
                           Name (Service.ObjectMeta latestSvc)))
          else Inr (sortRevisions h items, revsMap))"

text \<open>The loop of \<^verbatim>\<open>exportServiceListForReplay\<close> over the sorted revisions.\<close>

fun replayItems ::
  "store \<Rightarrow> 's Service \<Rightarrow> (string \<rightharpoonup> bool) \<Rightarrow> 's Revision list \<Rightarrow> 's Service list
     \<Rightarrow> store \<times> 's Service list" where
  "replayItems h latestSvc revsMap [] exportedSvcItems = (h, exportedSvcItems)"
| "replayItems h latestSvc revsMap (revision # rest) exportedSvcItems =
     (if routed revsMap (Name (Revision.ObjectMeta revision)) \<and>
         Name (Revision.ObjectMeta revision) \<noteq>
           Name (RevisionTemplateSpec.ObjectMeta (Template (Service.Spec latestSvc)))
      then (let (h1, c) = DeepCopy_Revision h revision;
                (h2, e) = constructServiceFromRevision h1 latestSvc c
            in replayItems h2 latestSvc revsMap rest (exportedSvcItems @ [e]))
      else replayItems h latestSvc revsMap rest exportedSvcItems)"

definition exportServiceListForReplay ::
  "store \<Rightarrow> 's Service \<Rightarrow> error + 's Revision list \<Rightarrow> bool
     \<Rightarrow> store \<times> (error + 's Object)" where
  "exportServiceListForReplay h latestSvc listRevisions withRevisions =
     (if \<not> withRevisions
      then (let (h1, e) = exportLatestService h latestSvc False
            in (h1, Inr (ServiceObject e)))
      else
        (case getRevisionsToExport h latestSvc listRevisions of
           Inl err \<Rightarrow> (h, Inl err)
         | Inr (revisionList, revsMap) \<Rightarrow>
             (let (h1, exportedSvcItems) = replayItems h latestSvc revsMap revisionList [];
                  (h2, e) = exportLatestService h1 latestSvc (length revisionList > 1)
              in (h2, Inr (ServiceListObject
                             \<lparr>ServiceList.TypeMeta = \<lparr>Kind = ''List'', APIVersion = ''v1''\<rparr>,
                              Items = exportedSvcItems @ [e]\<rparr>)))))"

text \<open>The loop of \<^verbatim>\<open>exportForKNImport\<close> over the sorted revisions.\<close>

fun importItems ::
  "store \<Rightarrow> 's Service \<Rightarrow> (string \<rightharpoonup> bool) \<Rightarrow> 's Revision list \<Rightarrow> 's Revision list
     \<Rightarrow> store \<times> 's Revision list" where
  "importItems h latestSvc revsMap [] exportedRevItems = (h, exportedRevItems)"
| "importItems h latestSvc revsMap (revision # rest) exportedRevItems =
     (if routed revsMap (Name (Revision.ObjectMeta revision)) \<and>
         Name (Revision.ObjectMeta revision) \<noteq>
           Name (RevisionTemplateSpec.ObjectMeta (Template (Service.Spec latestSvc)))
      then (let (h1, c) = DeepCopy_Revision h revision;
                (h2, e) = exportRevision h1 c
            in importItems h2 latestSvc revsMap rest (exportedRevItems @ [e]))
      else importItems h latestSvc revsMap rest exportedRevItems)"

definition exportForKNImport ::
  "store \<Rightarrow> 's Service \<Rightarrow> error + 's Revision list \<Rightarrow> bool
     \<Rightarrow> store \<times> (error + 's Export)" where
  "exportForKNImport h latestSvc listRevisions withRevisions =
     (case (if withRevisions
            then (case getRevisionsToExport h latestSvc listRevisions of
                    Inl err \<Rightarrow> Inl err
                  | Inr (revisionList, revsMap) \<Rightarrow>
                      Inr (importItems h latestSvc revsMap revisionList [],
                           length revisionList))
            else Inr ((h, []), 0)) of
        Inl err \<Rightarrow> (h, Inl err)
      | Inr ((h1, exportedRevItems), revisionHistoryCount) \<Rightarrow>
          (let (h2, e) = exportLatestService h1 latestSvc (revisionHistoryCount > 1)
           in (h2, Inr \<lparr>Export.TypeMeta =
                          \<lparr>Kind = ''Export'', APIVersion = ''client.knative.dev/v1alpha1''\<rparr>,
                        Export.Spec = \<lparr>Service = e, Revisions = exportedRevItems\<rparr>\<rparr>)))"

text \<open>
  \<^verbatim>\<open>exportService\<close>, with the two flags as arguments. \<open>Inr obj\<close> is the object handed
  to \<^verbatim>\<open>printer.PrintObj\<close>; on \<open>Inl err\<close> nothing is printed.
\<close>

definition exportService ::
  "store \<Rightarrow> 's Service \<Rightarrow> error + 's Revision list \<Rightarrow> bool \<Rightarrow> string
     \<Rightarrow> store \<times> (error + 's Object)" where
  "exportService h service listRevisions withRevisions mode =
     (let (h1, c) = DeepCopy_Service h service in
      if mode = ModeReplay
      then exportServiceListForReplay h1 c listRevisions withRevisions
      else (case exportForKNImport h1 c listRevisions withRevisions of
              (h2, Inl err) \<Rightarrow> (h2, Inl err)
            | (h2, Inr knExport) \<Rightarrow> (h2, Inr (ExportObject knExport))))"

subsection \<open>Notions used in the statements\<close>

text \<open>
  What the loop of \<^verbatim>\<open>exportLatestService\<close> does to one traffic target: the name
  becomes the latest ready revision's where the flag is set and true.
\<close>

definition materialize :: "string \<Rightarrow> TrafficTarget \<Rightarrow> TrafficTarget" where
  "materialize latest t =
     (if LatestRevision t = Some True then t\<lparr>RevisionName := latest\<rparr> else t)"

text \<open>The generation of a revision as the comparison reads it: the parsed label.\<close>

definition generation :: "store \<Rightarrow> 's Revision \<Rightarrow> int option" where
  "generation h r = Atoi (index h (Labels (Revision.ObjectMeta r)) ConfigurationGenerationLabelKey)"

text \<open>
  The revisions the two assemblers keep from the list the query returned: those of the
  sorted list whose name is routed and is not the name of the live template.
\<close>

definition historicalRevisions :: "store \<Rightarrow> 's Service \<Rightarrow> 's Revision list \<Rightarrow> 's Revision list" where
  "historicalRevisions h latestSvc items =
     filter (\<lambda>r. routed (getRoutedRevisions h latestSvc) (Name (Revision.ObjectMeta r)) \<and>
                 Name (Revision.ObjectMeta r) \<noteq>
                   Name (RevisionTemplateSpec.ObjectMeta (Template (Service.Spec latestSvc))))
       (sortRevisions h items)"

text \<open>
  The insertion sort on lists, for the proofs: \<open>insl\<close> inserts into the sorted prefix
  held in reverse, moving past the elements the new one is less than, as the inner loop
  does from the right end; \<open>risort\<close> inserts the elements one after the other.
\<close>

fun insl :: "('a \<Rightarrow> 'a \<Rightarrow> bool) \<Rightarrow> 'a \<Rightarrow> 'a list \<Rightarrow> 'a list" where
  "insl lt x [] = [x]"
| "insl lt x (y # ys) = (if lt x y then y # insl lt x ys else x # y # ys)"

definition risort :: "('a \<Rightarrow> 'a \<Rightarrow> bool) \<Rightarrow> 'a list \<Rightarrow> 'a list" where
  "risort lt xs = foldl (\<lambda>acc x. insl lt x acc) [] xs"

text \<open>A strict weak order on the elements of a set: asymmetric and negatively transitive.\<close>

definition strict_weak_on :: "'a set \<Rightarrow> ('a \<Rightarrow> 'a \<Rightarrow> bool) \<Rightarrow> bool" where
  "strict_weak_on S lt =
     ((\<forall>a\<in>S. \<forall>b\<in>S. lt a b \<longrightarrow> \<not> lt b a) \<and>
      (\<forall>a\<in>S. \<forall>b\<in>S. \<forall>c\<in>S. \<not> lt a b \<longrightarrow> \<not> lt b c \<longrightarrow> \<not> lt a c))"

text \<open>
  The order the claims describe, as a relation between a revision and one that stands
  after it: the generation does not decrease, and with equal generations, or with a
  label that does not parse on either side, the name does not increase.
\<close>

definition inOrder :: "store \<Rightarrow> 's Revision \<Rightarrow> 's Revision \<Rightarrow> bool" where
  "inOrder h a b =
     (case (generation h a, generation h b) of
        (Some agen, Some bgen) \<Rightarrow>
          agen < bgen \<or>
          (agen = bgen \<and> Name (Revision.ObjectMeta b) \<le> Name (Revision.ObjectMeta a))
      | _ \<Rightarrow> Name (Revision.ObjectMeta b) \<le> Name (Revision.ObjectMeta a))"

text \<open>The test of the two loops: the revision is routed and is not the live template's.\<close>

definition kept :: "store \<Rightarrow> 's Service \<Rightarrow> 's Revision \<Rightarrow> bool" where
  "kept h latestSvc r =
     (routed (getRoutedRevisions h latestSvc) (Name (Revision.ObjectMeta r)) \<and>
      Name (Revision.ObjectMeta r) \<noteq>
        Name (RevisionTemplateSpec.ObjectMeta (Template (Service.Spec latestSvc))))"

text \<open>
  The lists on which \<open>SliceStable\<close> is the library's sort: those of at most 20
  elements, and those on whose elements the comparison is a strict weak order.
\<close>

definition sortModelled :: "store \<Rightarrow> 's Revision list \<Rightarrow> bool" where
  "sortModelled h items =
     (length items \<le> 20 \<or> strict_weak_on (set items) (revisionListSortFunc h))"

subsection \<open>An example\<close>

text \<open>
  The service \<open>foo\<close> with two revisions of generations 1 and 2; its template is the
  second revision's, its traffic names the first revision and follows the latest one.
  A third revision has no labels at all.
\<close>

definition ex_store :: store where
  "ex_store =
     \<lparr>maps = (\<lambda>a. Map.empty)
        (0 := [''serving.knative.dev/serviceUID'' \<mapsto> ''u1''],
         1 := [''serving.knative.dev/creator'' \<mapsto> ''alice''],
         2 := [''app'' \<mapsto> ''foo''],
         3 := [''serving.knative.dev/creator'' \<mapsto> ''alice''],
         4 := [''serving.knative.dev/configurationGeneration'' \<mapsto> ''1'',
               ''serving.knative.dev/serviceUID'' \<mapsto> ''u1''],
         5 := [''serving.knative.dev/lastPinned'' \<mapsto> ''160''],
         6 := [''serving.knative.dev/configurationGeneration'' \<mapsto> ''2'',
               ''serving.knative.dev/serviceUID'' \<mapsto> ''u1''],
         7 := [''serving.knative.dev/creator'' \<mapsto> ''alice'']),
      arrays = (\<lambda>a. [])
        (0 := [\<lparr>Tag = [], RevisionName = ''foo-00001'', ConfigurationName = [],
                LatestRevision = Some False, Percent = Some 50\<rparr>,
               \<lparr>Tag = [], RevisionName = [], ConfigurationName = [],
                LatestRevision = Some True, Percent = Some 50\<rparr>]),
      nextMap = 8,
      nextArray = 1\<rparr>"

definition ex_service :: "nat Service" where
  "ex_service =
     \<lparr>Service.TypeMeta = \<lparr>Kind = ''Service'', APIVersion = ''serving.knative.dev/v1''\<rparr>,
      Service.ObjectMeta =
        \<lparr>Name = ''foo'', Namespace = ''default'', Labels = Some 0, Annotations = Some 1\<rparr>,
      Service.Spec =
        \<lparr>Template =
           \<lparr>RevisionTemplateSpec.ObjectMeta =
              \<lparr>Name = ''foo-00002'', Namespace = [], Labels = Some 2, Annotations = Some 3\<rparr>,
            RevisionTemplateSpec.Spec = 2\<rparr>,
         RouteSpec = \<lparr>Traffic = Some 0\<rparr>\<rparr>,
      Service.Status =
        \<lparr>LatestReadyRevisionName = ''foo-00002'', LatestCreatedRevisionName = ''foo-00002''\<rparr>\<rparr>"

definition ex_revision1 :: "nat Revision" where
  "ex_revision1 =
     \<lparr>Revision.TypeMeta = \<lparr>Kind = ''Revision'', APIVersion = ''serving.knative.dev/v1''\<rparr>,
      Revision.ObjectMeta =
        \<lparr>Name = ''foo-00001'', Namespace = ''default'', Labels = Some 4, Annotations = Some 5\<rparr>,
      Revision.Spec = 1\<rparr>"

definition ex_revision2 :: "nat Revision" where
  "ex_revision2 =
     \<lparr>Revision.TypeMeta = \<lparr>Kind = ''Revision'', APIVersion = ''serving.knative.dev/v1''\<rparr>,
      Revision.ObjectMeta =
        \<lparr>Name = ''foo-00002'', Namespace = ''default'', Labels = Some 6, Annotations = Some 7\<rparr>,
      Revision.Spec = 2\<rparr>"

definition ex_revision3 :: "nat Revision" where
  "ex_revision3 =
     \<lparr>Revision.TypeMeta = \<lparr>Kind = ''Revision'', APIVersion = ''serving.knative.dev/v1''\<rparr>,
      Revision.ObjectMeta =
        \<lparr>Name = ''foo-00001-canary'', Namespace = ''default'', Labels = None, Annotations = None\<rparr>,
      Revision.Spec = 3\<rparr>"

definition ex_items :: "nat Revision list" where
  "ex_items = [ex_revision2, ex_revision1]"

text \<open>
  A second state of the service: four revisions of generations 1 to 4, returned newest
  first. The traffic names the first, the second and the fourth, the fourth is the live
  template's, and no target names the third.
\<close>

definition ex_store2 :: store where
  "ex_store2 =
     ex_store
       \<lparr>maps := (maps ex_store)
          (8 := [''serving.knative.dev/configurationGeneration'' \<mapsto> ''3''],
           9 := [''serving.knative.dev/configurationGeneration'' \<mapsto> ''4'']),
        arrays := (arrays ex_store)
          (1 := [\<lparr>Tag = [], RevisionName = ''foo-00001'', ConfigurationName = [],
                  LatestRevision = Some False, Percent = Some 30\<rparr>,
                 \<lparr>Tag = [], RevisionName = ''foo-00002'', ConfigurationName = [],
                  LatestRevision = Some False, Percent = Some 30\<rparr>,
                 \<lparr>Tag = [], RevisionName = ''foo-00004'', ConfigurationName = [],
                  LatestRevision = Some False, Percent = Some 40\<rparr>]),
        nextMap := 10,
        nextArray := 2\<rparr>"

definition ex_service2 :: "nat Service" where
  "ex_service2 =
     \<lparr>Service.TypeMeta = \<lparr>Kind = ''Service'', APIVersion = ''serving.knative.dev/v1''\<rparr>,
      Service.ObjectMeta =
        \<lparr>Name = ''foo'', Namespace = ''default'', Labels = Some 0, Annotations = Some 1\<rparr>,
      Service.Spec =
        \<lparr>Template =
           \<lparr>RevisionTemplateSpec.ObjectMeta =
              \<lparr>Name = ''foo-00004'', Namespace = [], Labels = Some 2, Annotations = Some 3\<rparr>,
            RevisionTemplateSpec.Spec = 4\<rparr>,
         RouteSpec = \<lparr>Traffic = Some 1\<rparr>\<rparr>,
      Service.Status =
        \<lparr>LatestReadyRevisionName = ''foo-00004'', LatestCreatedRevisionName = ''foo-00004''\<rparr>\<rparr>"

definition ex_unrouted :: "nat Revision" where
  "ex_unrouted =
     \<lparr>Revision.TypeMeta = \<lparr>Kind = ''Revision'', APIVersion = ''serving.knative.dev/v1''\<rparr>,
      Revision.ObjectMeta =
        \<lparr>Name = ''foo-00003'', Namespace = ''default'', Labels = Some 8, Annotations = None\<rparr>,
      Revision.Spec = 3\<rparr>"

definition ex_current :: "nat Revision" where
  "ex_current =
     \<lparr>Revision.TypeMeta = \<lparr>Kind = ''Revision'', APIVersion = ''serving.knative.dev/v1''\<rparr>,
      Revision.ObjectMeta =
        \<lparr>Name = ''foo-00004'', Namespace = ''default'', Labels = Some 9, Annotations = None\<rparr>,
      Revision.Spec = 4\<rparr>"

definition ex_items2 :: "nat Revision list" where
  "ex_items2 = [ex_current, ex_unrouted, ex_revision2, ex_revision1]"

section \<open>Properties\<close>

subsection \<open>Deleting a list of keys\<close>

text \<open>A strip loop leaves in the map exactly the entries whose key is not on the list.\<close>

lemma delete_all:
  "foldl (\<lambda>h k. delete h m k) h ks =
     (case m of None \<Rightarrow> h
      | Some a \<Rightarrow> h\<lparr>maps := (maps h)(a := maps h a |` (- set ks))\<rparr>)"
proof (induction ks arbitrary: h)
  case Nil
  then show ?case by (simp split: option.splits)
next
  case (Cons k ks)
  show ?case
  proof (cases m)
    case None
    then show ?thesis using Cons by (simp add: delete_def)
  next
    case (Some a)
    have "(maps h a)(k := None) |` (- set ks) = maps h a |` (- insert k (set ks))"
      by (rule ext) (simp add: restrict_map_def)
    then show ?thesis using Some Cons by (simp add: delete_def)
  qed
qed

lemma delete_all_idem:
  "foldl (\<lambda>h k. delete h m k) (foldl (\<lambda>h k. delete h m k) h ks) ks =
   foldl (\<lambda>h k. delete h m k) h ks"
  by (simp add: delete_all split: option.splits)

lemma delete_all_frame:
  "arrays (foldl (\<lambda>h k. delete h m k) h ks) = arrays h"
  "nextMap (foldl (\<lambda>h k. delete h m k) h ks) = nextMap h"
  "nextArray (foldl (\<lambda>h k. delete h m k) h ks) = nextArray h"
  by (simp_all add: delete_all split: option.splits)

lemma delete_all_maps:
  "maps (foldl (\<lambda>h k. delete h m k) h ks) a =
     maps h a |` (- (if m = Some a then set ks else {}))"
  by (auto simp add: delete_all split: option.splits)

lemmas strip_defs =
  stripIgnoredAnnotationsFromService_def stripIgnoredAnnotationsFromRevision_def
  stripIgnoredAnnotationsFromRevisionTemplate_def stripIgnoredLabelsFromService_def
  stripIgnoredLabelsFromRevision_def stripIgnoredLabelsFromRevisionTemplate_def

lemma restrict_restrict: "(m |` A) |` B = m |` (A \<inter> B)"
  by (rule ext) (simp add: restrict_map_def)

subsection \<open>Sanitization is idempotent\<close>

text \<open>
  Claim C9. Each of the six strip functions, applied a second time to the same object,
  leaves the store as the first application left it: no map changes any more.
\<close>

theorem strip_idempotent:
  "stripIgnoredAnnotationsFromService (stripIgnoredAnnotationsFromService h svc) svc =
     stripIgnoredAnnotationsFromService h svc \<and>
   stripIgnoredAnnotationsFromRevision (stripIgnoredAnnotationsFromRevision h revision) revision =
     stripIgnoredAnnotationsFromRevision h revision \<and>
   stripIgnoredAnnotationsFromRevisionTemplate
       (stripIgnoredAnnotationsFromRevisionTemplate h template) template =
     stripIgnoredAnnotationsFromRevisionTemplate h template \<and>
   stripIgnoredLabelsFromService (stripIgnoredLabelsFromService h svc) svc =
     stripIgnoredLabelsFromService h svc \<and>
   stripIgnoredLabelsFromRevision (stripIgnoredLabelsFromRevision h revision) revision =
     stripIgnoredLabelsFromRevision h revision \<and>
   stripIgnoredLabelsFromRevisionTemplate
       (stripIgnoredLabelsFromRevisionTemplate h template) template =
     stripIgnoredLabelsFromRevisionTemplate h template"
  unfolding stripIgnoredAnnotationsFromService_def stripIgnoredAnnotationsFromRevision_def
    stripIgnoredAnnotationsFromRevisionTemplate_def stripIgnoredLabelsFromService_def
    stripIgnoredLabelsFromRevision_def stripIgnoredLabelsFromRevisionTemplate_def
  by (simp only: delete_all_idem)

subsection \<open>The loop over the traffic targets\<close>

lemma is_latest:
  "(case x of None \<Rightarrow> False | Some latestRevision \<Rightarrow> latestRevision) = (x = Some True)"
  by (cases x) auto

lemma setLatest_step:
  "setLatestRevisionName (Some a) latest h i =
     h\<lparr>arrays := (arrays h)(a := (arrays h a)[i := materialize latest (arrays h a ! i)])\<rparr>"
  by (simp add: setLatestRevisionName_def materialize_def Let_def is_latest)

lemma setLatest_foldl:
  "k \<le> length (arrays h a) \<Longrightarrow>
   foldl (setLatestRevisionName (Some a) latest) h [0..<k] =
     h\<lparr>arrays := (arrays h)(a := map (materialize latest) (take k (arrays h a)) @
                                    drop k (arrays h a))\<rparr>"
proof (induction k)
  case 0
  then show ?case by simp
next
  case (Suc k)
  let ?ts = "arrays h a"
  have k: "k < length ?ts" using Suc.prems by simp
  have d: "drop k ?ts = ?ts ! k # drop (Suc k) ?ts"
    using k by (simp add: Cons_nth_drop_Suc)
  have t: "take (Suc k) ?ts = take k ?ts @ [?ts ! k]"
    using k by (simp add: take_Suc_conv_app_nth)
  have nth: "(map (materialize latest) (take k ?ts) @ drop k ?ts) ! k = ?ts ! k"
    using k by (simp add: nth_append)
  have upd: "(map (materialize latest) (take k ?ts) @ drop k ?ts)
               [k := materialize latest (?ts ! k)] =
             map (materialize latest) (take (Suc k) ?ts) @ drop (Suc k) ?ts"
    using k unfolding d t by (simp add: list_update_append)
  have "foldl (setLatestRevisionName (Some a) latest) h [0..<Suc k] =
        setLatestRevisionName (Some a) latest
          (foldl (setLatestRevisionName (Some a) latest) h [0..<k]) k"
    by simp
  also have "\<dots> = setLatestRevisionName (Some a) latest
       (h\<lparr>arrays := (arrays h)(a := map (materialize latest) (take k ?ts) @ drop k ?ts)\<rparr>) k"
    by (simp only: Suc.IH [OF Suc_leD [OF Suc.prems]])
  also have "\<dots> = h\<lparr>arrays := (arrays h)(a := map (materialize latest) (take (Suc k) ?ts) @
                                              drop (Suc k) ?ts)\<rparr>"
    unfolding setLatest_step using nth upd by simp
  finally show ?case .
qed

lemma setLatest_all:
  "foldl (setLatestRevisionName s latest) h [0..<length (elems h s)] =
     (case s of None \<Rightarrow> h
      | Some a \<Rightarrow> h\<lparr>arrays := (arrays h)(a := map (materialize latest) (arrays h a))\<rparr>)"
proof (cases s)
  case None
  then show ?thesis by (simp add: elems_def)
next
  case (Some a)
  then show ?thesis using setLatest_foldl [of "length (arrays h a)" h a latest]
    by (simp add: elems_def)
qed

subsection \<open>What the builders return and what they do to the store\<close>

lemma exportLatestService_snd:
  "snd (exportLatestService h latestSvc withRoutes) =
     \<lparr>Service.TypeMeta = Service.TypeMeta latestSvc,
      Service.ObjectMeta =
        \<lparr>Name = Name (Service.ObjectMeta latestSvc),
         Namespace = [],
         Labels = Labels (Service.ObjectMeta latestSvc),
         Annotations = Annotations (Service.ObjectMeta latestSvc)\<rparr>,
      Service.Spec =
        \<lparr>Template =
           \<lparr>RevisionTemplateSpec.ObjectMeta =
              RevisionTemplateSpec.ObjectMeta (Template (Service.Spec latestSvc)),
            RevisionTemplateSpec.Spec =
              RevisionTemplateSpec.Spec (Template (Service.Spec latestSvc))\<rparr>,
         RouteSpec =
           (if withRoutes then RouteSpec (Service.Spec latestSvc) else \<lparr>Traffic = None\<rparr>)\<rparr>,
      Service.Status = \<lparr>LatestReadyRevisionName = [], LatestCreatedRevisionName = []\<rparr>\<rparr>"
  by (simp add: exportLatestService_def Let_def)

lemma exportLatestService_arrays:
  "arrays (fst (exportLatestService h latestSvc withRoutes)) =
     (if withRoutes
      then (case Traffic (RouteSpec (Service.Spec latestSvc)) of
              None \<Rightarrow> arrays h
            | Some a \<Rightarrow>
                (arrays h)(a := map (materialize (LatestReadyRevisionName (Service.Status latestSvc)))
                                 (arrays h a)))
      else arrays h)"
  by (simp add: exportLatestService_def Let_def strip_defs delete_all_frame setLatest_all
        split: option.splits)

lemma exportLatestService_maps:
  "maps (fst (exportLatestService h latestSvc withRoutes)) a =
     maps h a |`
       (- ((if Annotations (Service.ObjectMeta latestSvc) = Some a
            then set IgnoredServiceAnnotations else {}) \<union>
           (if Labels (Service.ObjectMeta latestSvc) = Some a
            then set IgnoredServiceLabels else {}) \<union>
           (if Annotations (RevisionTemplateSpec.ObjectMeta (Template (Service.Spec latestSvc))) =
               Some a
            then set IgnoredRevisionAnnotations else {}) \<union>
           (if Labels (RevisionTemplateSpec.ObjectMeta (Template (Service.Spec latestSvc))) =
               Some a
            then set IgnoredRevisionLabels else {})))"
proof -
  have m: "maps (foldl (setLatestRevisionName s l) h [0..<length (elems h s)]) = maps h" for s l
    by (simp add: setLatest_all split: option.splits)
  have c: "- A \<inter> - B = - (A \<union> B)" for A B :: "string set" by auto
  show ?thesis
    unfolding exportLatestService_def Let_def strip_defs fst_conv delete_all_maps
    by (cases withRoutes)
       (simp_all only: m restrict_restrict c Un_assoc Service.simps ServiceSpec.simps
          RevisionTemplateSpec.simps ObjectMeta.simps if_True if_False)
qed

lemma constructServiceFromRevision_snd:
  "snd (constructServiceFromRevision h latestSvc revision) =
     \<lparr>Service.TypeMeta = Service.TypeMeta latestSvc,
      Service.ObjectMeta =
        \<lparr>Name = Name (Service.ObjectMeta latestSvc),
         Namespace = [],
         Labels = Labels (Service.ObjectMeta latestSvc),
         Annotations = Annotations (Service.ObjectMeta latestSvc)\<rparr>,
      Service.Spec =
        \<lparr>Template =
           \<lparr>RevisionTemplateSpec.ObjectMeta =
              (RevisionTemplateSpec.ObjectMeta (Template (Service.Spec latestSvc)))
                \<lparr>Annotations := Annotations (Revision.ObjectMeta revision),
                 Name := Name (Revision.ObjectMeta revision)\<rparr>,
            RevisionTemplateSpec.Spec = Revision.Spec revision\<rparr>,
         RouteSpec = \<lparr>Traffic = None\<rparr>\<rparr>,
      Service.Status = \<lparr>LatestReadyRevisionName = [], LatestCreatedRevisionName = []\<rparr>\<rparr>"
  by (simp add: constructServiceFromRevision_def Let_def)

lemma constructServiceFromRevision_frame:
  "arrays (fst (constructServiceFromRevision h latestSvc revision)) = arrays h"
  "nextMap (fst (constructServiceFromRevision h latestSvc revision)) = nextMap h"
  "nextArray (fst (constructServiceFromRevision h latestSvc revision)) = nextArray h"
  by (simp_all add: constructServiceFromRevision_def Let_def strip_defs delete_all_frame)

lemma constructServiceFromRevision_maps:
  "maps (fst (constructServiceFromRevision h latestSvc revision)) a =
     maps h a |`
       (- ((if Annotations (Revision.ObjectMeta revision) = Some a
            then set IgnoredRevisionAnnotations else {}) \<union>
           (if Annotations (Service.ObjectMeta latestSvc) = Some a
            then set IgnoredServiceAnnotations else {})))"
proof -
  have c: "- A \<inter> - B = - (A \<union> B)" for A B :: "string set" by auto
  show ?thesis
    unfolding constructServiceFromRevision_def Let_def strip_defs fst_conv delete_all_maps
    by (simp only: restrict_restrict c Service.simps ObjectMeta.simps)
qed

subsection \<open>The routed-revision set\<close>

lemma routed_foldl:
  "routed (foldl (\<lambda>revsMap traffic.
              if RevisionName traffic \<noteq> [] then revsMap(RevisionName traffic \<mapsto> True)
              else revsMap) m ts) n =
   (routed m n \<or> (n \<noteq> [] \<and> n \<in> RevisionName ` set ts))"
  by (induction ts arbitrary: m) (auto simp: routed_def)

text \<open>
  Claim C2. A name is in the routed set exactly when it is not empty and is the revision
  name of a traffic target of the service. A target that only sets the latest-revision
  flag has the empty name, which is never in the set, and adds no name: the name of the
  revision it resolves to is in the set only if another target names it.
\<close>

theorem routed_exactly_explicit_names:
  "routed (getRoutedRevisions h latestSvc) n =
     (n \<noteq> [] \<and>
      n \<in> RevisionName ` set (elems h (Traffic (RouteSpec (Service.Spec latestSvc))))) \<and>
   \<not> routed (getRoutedRevisions h latestSvc) []"
  by (simp add: getRoutedRevisions_def routed_foldl) (simp add: routed_def)

subsection \<open>The traffic of the latest-state service\<close>

text \<open>
  Claim C6. With routes included, the traffic targets of the exported service are, after
  the call, the live service's targets before it, each unchanged but for the revision
  name of the targets whose latest-revision flag is set and true: that name is the
  status's latest ready revision name.
\<close>

theorem traffic_materialized:
  "elems (fst (exportLatestService h latestSvc True))
      (Traffic (RouteSpec (Service.Spec (snd (exportLatestService h latestSvc True))))) =
   map (\<lambda>t. if LatestRevision t = Some True
            then t\<lparr>RevisionName := LatestReadyRevisionName (Service.Status latestSvc)\<rparr>
            else t)
     (elems h (Traffic (RouteSpec (Service.Spec latestSvc))))"
  by (simp add: exportLatestService_snd exportLatestService_arrays elems_def materialize_def
        split: option.splits)

subsection \<open>The builders share the maps of their arguments\<close>

text \<open>
  Claim C10. The service \<open>e\<close> that \<^verbatim>\<open>constructServiceFromRevision\<close> returns has, as its
  template's annotation map, the very map of the revision it was given, and the label and
  annotation maps of the live service (its template's label map is the live template's).
  In the store \<open>h'\<close> the call leaves, the revision's own annotation map has lost the keys
  of the revision deny-list and the live service's annotation map those of the service
  deny-list; no other entry of any map has changed. Likewise the service that
  \<^verbatim>\<open>exportLatestService\<close> returns has the four maps of the live service and its
  template, and the call has deleted from each of them the keys of its deny-list.
\<close>

theorem builders_share_maps:
  "(let (h', e) = constructServiceFromRevision h latestSvc revision in
      Annotations (RevisionTemplateSpec.ObjectMeta (Template (Service.Spec e))) =
        Annotations (Revision.ObjectMeta revision) \<and>
      Labels (RevisionTemplateSpec.ObjectMeta (Template (Service.Spec e))) =
        Labels (RevisionTemplateSpec.ObjectMeta (Template (Service.Spec latestSvc))) \<and>
      Labels (Service.ObjectMeta e) = Labels (Service.ObjectMeta latestSvc) \<and>
      Annotations (Service.ObjectMeta e) = Annotations (Service.ObjectMeta latestSvc) \<and>
      (\<forall>a. maps h' a =
             maps h a |`
               (- ((if Annotations (Revision.ObjectMeta revision) = Some a
                    then set IgnoredRevisionAnnotations else {}) \<union>
                   (if Annotations (Service.ObjectMeta latestSvc) = Some a
                    then set IgnoredServiceAnnotations else {}))))) \<and>
   (let (h', e) = exportLatestService h latestSvc withRoutes in
      Labels (Service.ObjectMeta e) = Labels (Service.ObjectMeta latestSvc) \<and>
      Annotations (Service.ObjectMeta e) = Annotations (Service.ObjectMeta latestSvc) \<and>
      Labels (RevisionTemplateSpec.ObjectMeta (Template (Service.Spec e))) =
        Labels (RevisionTemplateSpec.ObjectMeta (Template (Service.Spec latestSvc))) \<and>
      Annotations (RevisionTemplateSpec.ObjectMeta (Template (Service.Spec e))) =
        Annotations (RevisionTemplateSpec.ObjectMeta (Template (Service.Spec latestSvc))) \<and>
      (\<forall>a. maps h' a =
             maps h a |`
               (- ((if Annotations (Service.ObjectMeta latestSvc) = Some a
                    then set IgnoredServiceAnnotations else {}) \<union>
                   (if Labels (Service.ObjectMeta latestSvc) = Some a
                    then set IgnoredServiceLabels else {}) \<union>
                   (if Annotations (RevisionTemplateSpec.ObjectMeta
                                      (Template (Service.Spec latestSvc))) = Some a
                    then set IgnoredRevisionAnnotations else {}) \<union>
                   (if Labels (RevisionTemplateSpec.ObjectMeta
                                 (Template (Service.Spec latestSvc))) = Some a
                    then set IgnoredRevisionLabels else {})))))"
  unfolding case_prod_beta Let_def
  by (simp add: constructServiceFromRevision_snd constructServiceFromRevision_maps
        exportLatestService_snd exportLatestService_maps)

subsection \<open>The insertion sort\<close>

text \<open>
  The loops over indices compute the insertion sort on lists; the result is a
  permutation of the input and, where the comparison is a strict weak order on the
  elements, sorted and stable. Any list with these three properties is the result: on
  such inputs every stable sort returns what \<open>SliceStable\<close> returns.
\<close>

lemma length_insl [simp]: "length (insl lt x ys) = Suc (length ys)"
  by (induction ys) auto

lemma swap_last:
  "swap (ps @ y # x # post) (Suc (length ps)) (length ps) = ps @ x # y # post"
  by (simp add: swap_def list_update_append nth_append)

lemma inner_insl:
  "insertionSort_inner lt (pre @ x # post) (length pre) = rev (insl lt x (rev pre)) @ post"
proof (induction pre arbitrary: post rule: rev_induct)
  case Nil
  show ?case by (simp add: insertionSort_inner.simps)
next
  case (snoc y ps)
  have nth: "((ps @ [y]) @ x # post) ! length (ps @ [y]) = x"
            "((ps @ [y]) @ x # post) ! (length (ps @ [y]) - 1) = y"
    by (simp_all add: nth_append)
  show ?case
  proof (cases "lt x y")
    case True
    have "insertionSort_inner lt ((ps @ [y]) @ x # post) (length (ps @ [y])) =
          insertionSort_inner lt (swap (ps @ y # x # post) (Suc (length ps)) (length ps)) (length ps)"
      using True nth by (subst insertionSort_inner.simps) simp
    also have "\<dots> = rev (insl lt x (rev ps)) @ y # post"
      unfolding swap_last by (rule snoc.IH)
    finally show ?thesis using True by simp
  next
    case False
    then show ?thesis using nth by (subst insertionSort_inner.simps) simp
  qed
qed

lemma length_risort_aux:
  "length (foldl (\<lambda>acc x. insl lt x acc) acc xs) = length acc + length xs"
  by (induction xs arbitrary: acc) auto

lemma length_risort [simp]: "length (risort lt xs) = length xs"
  by (simp add: risort_def length_risort_aux)

lemma risort_snoc: "risort lt (xs @ [x]) = insl lt x (risort lt xs)"
  by (simp add: risort_def)

lemma outer_prefix:
  "k \<le> length xs \<Longrightarrow>
   foldl (insertionSort_inner lt) xs [1..<k] = rev (risort lt (take k xs)) @ drop k xs"
proof (induction k)
  case 0
  then show ?case by (simp add: risort_def)
next
  case (Suc k)
  have k: "k < length xs" using Suc.prems by simp
  have t: "take (Suc k) xs = take k xs @ [xs ! k]"
    using k by (simp add: take_Suc_conv_app_nth)
  have d: "drop k xs = xs ! k # drop (Suc k) xs"
    using k by (simp add: Cons_nth_drop_Suc)
  show ?case
  proof (cases "k = 0")
    case True
    then show ?thesis using k d by (simp add: risort_def take_Suc_conv_app_nth)
  next
    case False
    then have "[1..<Suc k] = [1..<k] @ [k]" by simp
    then have "foldl (insertionSort_inner lt) xs [1..<Suc k] =
               insertionSort_inner lt (foldl (insertionSort_inner lt) xs [1..<k]) k"
      by simp
    also have "\<dots> = insertionSort_inner lt (rev (risort lt (take k xs)) @ xs ! k # drop (Suc k) xs) k"
      using Suc.IH k d by simp
    also have "\<dots> = rev (insl lt (xs ! k) (rev (rev (risort lt (take k xs))))) @ drop (Suc k) xs"
      using inner_insl [of lt "rev (risort lt (take k xs))" "xs ! k" "drop (Suc k) xs"] k
      by simp
    finally show ?thesis by (simp add: t risort_snoc)
  qed
qed

lemma insertionSort_risort: "insertionSort lt xs = rev (risort lt xs)"
  using outer_prefix [of "length xs" xs lt] by (simp add: insertionSort_def)

lemma mset_insl [simp]: "mset (insl lt x ys) = add_mset x (mset ys)"
  by (induction ys) auto

lemma set_insl [simp]: "set (insl lt x ys) = insert x (set ys)"
  by (induction ys) auto

lemma mset_risort_aux:
  "mset (foldl (\<lambda>acc x. insl lt x acc) acc xs) = mset acc + mset xs"
  by (induction xs arbitrary: acc) auto

lemma mset_insertionSort: "mset (insertionSort lt xs) = mset xs"
  by (simp add: insertionSort_risort risort_def mset_risort_aux)

lemma swo_asym: "strict_weak_on S lt \<Longrightarrow> a \<in> S \<Longrightarrow> b \<in> S \<Longrightarrow> lt a b \<Longrightarrow> \<not> lt b a"
  unfolding strict_weak_on_def by blast

lemma swo_negtrans:
  "strict_weak_on S lt \<Longrightarrow> a \<in> S \<Longrightarrow> b \<in> S \<Longrightarrow> c \<in> S \<Longrightarrow> \<not> lt a b \<Longrightarrow> \<not> lt b c \<Longrightarrow> \<not> lt a c"
  unfolding strict_weak_on_def by blast

lemma sorted_insl:
  assumes "strict_weak_on S lt" "x \<in> S" "set ys \<subseteq> S" "sorted_wrt (\<lambda>a b. \<not> lt a b) ys"
  shows "sorted_wrt (\<lambda>a b. \<not> lt a b) (insl lt x ys)"
  using assms(3,4)
proof (induction ys)
  case Nil
  then show ?case by simp
next
  case (Cons y ys)
  have y: "y \<in> S" and ys: "set ys \<subseteq> S" using Cons.prems(1) by simp_all
  have sy: "\<forall>z\<in>set ys. \<not> lt y z" and sys: "sorted_wrt (\<lambda>a b. \<not> lt a b) ys"
    using Cons.prems(2) by simp_all
  show ?case
  proof (cases "lt x y")
    case True
    have "\<not> lt y x" by (rule swo_asym [OF assms(1,2) y True])
    moreover have "sorted_wrt (\<lambda>a b. \<not> lt a b) (insl lt x ys)" by (rule Cons.IH [OF ys sys])
    ultimately show ?thesis using True sy by simp
  next
    case False
    have "\<not> lt x z" if "z \<in> set ys" for z
    proof -
      have "\<not> lt y z" using sy that by simp
      moreover have "z \<in> S" using ys that by blast
      ultimately show ?thesis using swo_negtrans [OF assms(1,2) y _ False] by blast
    qed
    then show ?thesis using False sy sys by simp
  qed
qed

lemma sorted_risort_aux:
  assumes "strict_weak_on S lt"
  shows "set acc \<subseteq> S \<Longrightarrow> set xs \<subseteq> S \<Longrightarrow> sorted_wrt (\<lambda>a b. \<not> lt a b) acc \<Longrightarrow>
         sorted_wrt (\<lambda>a b. \<not> lt a b) (foldl (\<lambda>acc x. insl lt x acc) acc xs)"
proof (induction xs arbitrary: acc)
  case Nil
  then show ?case by simp
next
  case (Cons x xs)
  have x: "x \<in> S" and xs: "set xs \<subseteq> S" using Cons.prems(2) by simp_all
  have "sorted_wrt (\<lambda>a b. \<not> lt a b) (insl lt x acc)"
    by (rule sorted_insl [OF assms x Cons.prems(1) Cons.prems(3)])
  moreover have "set (insl lt x acc) \<subseteq> S" using Cons.prems(1) x by simp
  ultimately have "sorted_wrt (\<lambda>a b. \<not> lt a b) (foldl (\<lambda>acc x. insl lt x acc) (insl lt x acc) xs)"
    using Cons.IH xs by blast
  then show ?case by simp
qed

lemma sorted_insertionSort:
  assumes "strict_weak_on S lt" "set xs \<subseteq> S"
  shows "sorted_wrt (\<lambda>a b. \<not> lt b a) (insertionSort lt xs)"
proof -
  have "sorted_wrt (\<lambda>a b. \<not> lt a b) (risort lt xs)"
    unfolding risort_def by (rule sorted_risort_aux [OF assms(1) _ assms(2)]) simp_all
  then show ?thesis by (simp add: insertionSort_risort sorted_wrt_rev)
qed

text \<open>Stability: the elements that the order does not tell from \<open>c\<close> keep their places.\<close>

lemma filter_insl:
  assumes "strict_weak_on S lt" "x \<in> S" "set ys \<subseteq> S" "c \<in> S"
  shows "filter (\<lambda>z. \<not> lt c z \<and> \<not> lt z c) (insl lt x ys) =
         (if \<not> lt c x \<and> \<not> lt x c then x # filter (\<lambda>z. \<not> lt c z \<and> \<not> lt z c) ys
          else filter (\<lambda>z. \<not> lt c z \<and> \<not> lt z c) ys)"
  using assms(3)
proof (induction ys)
  case Nil
  then show ?case by simp
next
  case (Cons y ys)
  have y: "y \<in> S" and ys: "set ys \<subseteq> S" using Cons.prems by simp_all
  note IH = Cons.IH [OF ys]
  show ?case
  proof (cases "lt x y")
    case True
    show ?thesis
    proof (cases "\<not> lt c x \<and> \<not> lt x c")
      case eq: True
      have "lt c y \<or> lt y c"
      proof (rule ccontr)
        assume "\<not> (lt c y \<or> lt y c)"
        then have "\<not> lt c y" by simp
        with eq have "\<not> lt x y" using swo_negtrans [OF assms(1,2,4) y] by blast
        with True show False by simp
      qed
      then show ?thesis using True eq IH by auto
    next
      case False
      then show ?thesis using True IH by auto
    qed
  next
    case False
    then show ?thesis by simp
  qed
qed

lemma filter_risort_aux:
  assumes "strict_weak_on S lt" "c \<in> S"
  shows "set acc \<subseteq> S \<Longrightarrow> set xs \<subseteq> S \<Longrightarrow>
         filter (\<lambda>z. \<not> lt c z \<and> \<not> lt z c) (foldl (\<lambda>acc x. insl lt x acc) acc xs) =
         rev (filter (\<lambda>z. \<not> lt c z \<and> \<not> lt z c) xs) @ filter (\<lambda>z. \<not> lt c z \<and> \<not> lt z c) acc"
proof (induction xs arbitrary: acc)
  case Nil
  then show ?case by simp
next
  case (Cons x xs)
  have x: "x \<in> S" and xs: "set xs \<subseteq> S" using Cons.prems(2) by simp_all
  have "set (insl lt x acc) \<subseteq> S" using Cons.prems(1) x by simp
  from Cons.IH [OF this xs] show ?case
    by (simp add: filter_insl [OF assms(1) x Cons.prems(1) assms(2)])
qed

lemma stable_insertionSort:
  assumes "strict_weak_on S lt" "set xs \<subseteq> S" "c \<in> S"
  shows "filter (\<lambda>z. \<not> lt c z \<and> \<not> lt z c) (insertionSort lt xs) =
         filter (\<lambda>z. \<not> lt c z \<and> \<not> lt z c) xs"
  using filter_risort_aux [OF assms(1,3) _ assms(2), of "[]"]
  by (simp add: insertionSort_risort risort_def rev_filter [symmetric])

lemma swo_irrefl: "strict_weak_on S lt \<Longrightarrow> a \<in> S \<Longrightarrow> \<not> lt a a"
  using swo_asym [of S lt a a] by blast

lemma filter_Cons_same:
  "filter P (y # ys) = filter P (y # zs) \<Longrightarrow> filter P ys = filter P zs"
  by (cases "P y") simp_all

lemma filter_heads:
  "P y \<Longrightarrow> P z \<Longrightarrow> filter P (y # ys) = filter P (z # zs) \<Longrightarrow> y = z"
  by simp

lemma stable_sorted_unique:
  assumes swo: "strict_weak_on S lt"
  shows "set ys \<subseteq> S \<Longrightarrow> mset ys = mset zs \<Longrightarrow>
         sorted_wrt (\<lambda>a b. \<not> lt b a) ys \<Longrightarrow> sorted_wrt (\<lambda>a b. \<not> lt b a) zs \<Longrightarrow>
         (\<And>c. c \<in> S \<Longrightarrow> filter (\<lambda>z. \<not> lt c z \<and> \<not> lt z c) ys =
                           filter (\<lambda>z. \<not> lt c z \<and> \<not> lt z c) zs) \<Longrightarrow>
         ys = zs"
proof (induction ys arbitrary: zs)
  case Nil
  then show ?case by simp
next
  case (Cons y ys)
  have "zs \<noteq> []" using Cons.prems(2) by auto
  then obtain z zs' where zs: "zs = z # zs'" by (cases zs) simp_all
  note mset = Cons.prems(2) [unfolded zs]
  note sorted_zs = Cons.prems(4) [unfolded zs]
  have yS: "y \<in> S" and ysS: "set ys \<subseteq> S" using Cons.prems(1) by simp_all
  have "set_mset (mset (y # ys)) = set_mset (mset (z # zs'))" using mset by (rule arg_cong)
  then have sets: "insert y (set ys) = insert z (set zs')" by simp
  have zy: "\<not> lt z y"
  proof (cases "z = y")
    case True
    then show ?thesis using swo_irrefl [OF swo yS] by simp
  next
    case False
    then have "z \<in> set ys" using sets by blast
    then show ?thesis using Cons.prems(3) by simp
  qed
  have yz: "\<not> lt y z"
  proof (cases "y = z")
    case True
    then show ?thesis using swo_irrefl [OF swo yS] by simp
  next
    case False
    then have "y \<in> set zs'" using sets by blast
    then show ?thesis using sorted_zs by simp
  qed
  have yy: "\<not> lt y y" by (rule swo_irrefl [OF swo yS])
  have eq: "y = z"
    by (rule filter_heads [OF _ _ Cons.prems(5) [OF yS, unfolded zs]]) (simp_all add: yy yz zy)
  have "ys = zs'"
  proof (rule Cons.IH [OF ysS])
    show "mset ys = mset zs'" using mset unfolding eq by simp
    show "sorted_wrt (\<lambda>a b. \<not> lt b a) ys" using Cons.prems(3) by simp
    show "sorted_wrt (\<lambda>a b. \<not> lt b a) zs'" using sorted_zs by simp
    fix c assume c: "c \<in> S"
    show "filter (\<lambda>z. \<not> lt c z \<and> \<not> lt z c) ys = filter (\<lambda>z. \<not> lt c z \<and> \<not> lt z c) zs'"
      by (rule filter_Cons_same [OF Cons.prems(5) [OF c, unfolded zs eq [symmetric]]])
  qed
  then show ?case unfolding zs eq by simp
qed

lemma stable_sort_unique:
  assumes swo: "strict_weak_on S lt" and sub: "set xs \<subseteq> S"
    and perm: "mset ys = mset xs"
    and sorted: "sorted_wrt (\<lambda>a b. \<not> lt b a) ys"
    and stable: "\<And>c. c \<in> S \<Longrightarrow> filter (\<lambda>z. \<not> lt c z \<and> \<not> lt z c) ys =
                          filter (\<lambda>z. \<not> lt c z \<and> \<not> lt z c) xs"
  shows "ys = SliceStable lt xs"
  unfolding SliceStable_def
proof (rule stable_sorted_unique [OF swo])
  have "set_mset (mset ys) = set_mset (mset xs)" using perm by (rule arg_cong)
  then show "set ys \<subseteq> S" using sub by simp
  show "mset ys = mset (insertionSort lt xs)" using perm by (simp add: mset_insertionSort)
  show "sorted_wrt (\<lambda>a b. \<not> lt b a) ys" by (rule sorted)
  show "sorted_wrt (\<lambda>a b. \<not> lt b a) (insertionSort lt xs)"
    by (rule sorted_insertionSort [OF swo sub])
  fix c assume c: "c \<in> S"
  show "filter (\<lambda>z. \<not> lt c z \<and> \<not> lt z c) ys =
        filter (\<lambda>z. \<not> lt c z \<and> \<not> lt z c) (insertionSort lt xs)"
    unfolding stable_insertionSort [OF swo sub c] by (rule stable [OF c])
qed

subsection \<open>The comparison of two revisions\<close>

lemma less_cases:
  "revisionListSortFunc h a b =
     (case (generation h a, generation h b) of
        (Some agen, Some bgen) \<Rightarrow>
          agen < bgen \<or> (agen = bgen \<and> Name (Revision.ObjectMeta b) < Name (Revision.ObjectMeta a))
      | _ \<Rightarrow> Name (Revision.ObjectMeta b) < Name (Revision.ObjectMeta a))"
  by (auto simp add: revisionListSortFunc_def generation_def split: option.splits)

lemma swo_parsed: "strict_weak_on {r. generation h r \<noteq> None} (revisionListSortFunc h)"
  unfolding strict_weak_on_def by (auto simp add: less_cases)

lemma swo_unparsed: "strict_weak_on {r. generation h r = None} (revisionListSortFunc h)"
  unfolding strict_weak_on_def by (auto simp add: less_cases)

lemma set_insertionSort: "set (insertionSort lt xs) = set xs"
  using mset_insertionSort [of lt xs] by (metis set_mset_mset)

lemma strict_weak_on_subset: "strict_weak_on S lt \<Longrightarrow> T \<subseteq> S \<Longrightarrow> strict_weak_on T lt"
  unfolding strict_weak_on_def by blast

lemma swo_uniform:
  assumes "(\<forall>r\<in>set items. generation h r \<noteq> None) \<or> (\<forall>r\<in>set items. generation h r = None)"
  shows "strict_weak_on (set items) (revisionListSortFunc h)"
proof -
  from assms consider
      (parsed) "set items \<subseteq> {r. generation h r \<noteq> None}"
    | (unparsed) "set items \<subseteq> {r. generation h r = None}"
    by blast
  then show ?thesis
  proof cases
    case parsed
    then show ?thesis by (rule strict_weak_on_subset [OF swo_parsed])
  next
    case unparsed
    then show ?thesis by (rule strict_weak_on_subset [OF swo_unparsed])
  qed
qed

lemma inOrder_not_less: "inOrder h a b = (\<not> revisionListSortFunc h b a)"
  by (auto simp add: inOrder_def less_cases split: option.splits)

lemma sorted_sortRevisions:
  assumes "strict_weak_on (set items) (revisionListSortFunc h)"
  shows "sorted_wrt (inOrder h) (sortRevisions h items)"
  unfolding sortRevisions_def SliceStable_def
  using sorted_insertionSort [OF assms subset_refl]
  by (simp add: inOrder_not_less [abs_def])

lemma stable_sortRevisions:
  assumes "strict_weak_on (set items) (revisionListSortFunc h)" "c \<in> set items"
  shows "filter (\<lambda>r. \<not> revisionListSortFunc h c r \<and> \<not> revisionListSortFunc h r c)
           (sortRevisions h items) =
         filter (\<lambda>r. \<not> revisionListSortFunc h c r \<and> \<not> revisionListSortFunc h r c) items"
  unfolding sortRevisions_def SliceStable_def
  by (rule stable_insertionSort [OF assms(1) subset_refl assms(2)])

lemma mset_sortRevisions: "mset (sortRevisions h items) = mset items"
  unfolding sortRevisions_def SliceStable_def by (rule mset_insertionSort)

subsection \<open>The two loops of the assemblers\<close>

lemma copyMap_frame:
  "arrays (fst (copyMap h m)) = arrays h"
  "nextArray (fst (copyMap h m)) = nextArray h"
  by (simp_all add: copyMap_def split: option.splits)

lemma DeepCopy_ObjectMeta_frame:
  "arrays (fst (DeepCopy_ObjectMeta h om)) = arrays h"
  "nextArray (fst (DeepCopy_ObjectMeta h om)) = nextArray h"
  "Name (snd (DeepCopy_ObjectMeta h om)) = Name om"
  "Namespace (snd (DeepCopy_ObjectMeta h om)) = Namespace om"
  by (simp_all add: DeepCopy_ObjectMeta_def case_prod_beta copyMap_frame)

lemma DeepCopy_Revision_frame:
  "arrays (fst (DeepCopy_Revision h r)) = arrays h"
  "Name (Revision.ObjectMeta (snd (DeepCopy_Revision h r))) = Name (Revision.ObjectMeta r)"
  "Revision.Spec (snd (DeepCopy_Revision h r)) = Revision.Spec r"
  "Revision.TypeMeta (snd (DeepCopy_Revision h r)) = Revision.TypeMeta r"
  by (simp_all add: DeepCopy_Revision_def case_prod_beta DeepCopy_ObjectMeta_frame)

lemma exportRevision_frame:
  "arrays (fst (exportRevision h r)) = arrays h"
  "Name (Revision.ObjectMeta (snd (exportRevision h r))) = Name (Revision.ObjectMeta r)"
  "Revision.Spec (snd (exportRevision h r)) = Revision.Spec r"
  by (simp_all add: exportRevision_def Let_def strip_defs delete_all_frame)

lemma replayItems_arrays:
  "arrays (fst (replayItems h latestSvc revsMap revs acc)) = arrays h"
  by (induction revs arbitrary: h acc)
     (simp_all add: case_prod_beta constructServiceFromRevision_frame DeepCopy_Revision_frame)

lemma importItems_arrays:
  "arrays (fst (importItems h latestSvc revsMap revs acc)) = arrays h"
  by (induction revs arbitrary: h acc)
     (simp_all add: case_prod_beta exportRevision_frame DeepCopy_Revision_frame)

lemma replayItems_items:
  "map (\<lambda>s. (Name (RevisionTemplateSpec.ObjectMeta (Template (Service.Spec s))),
             RevisionTemplateSpec.Spec (Template (Service.Spec s))))
     (snd (replayItems h latestSvc revsMap revs acc)) =
   map (\<lambda>s. (Name (RevisionTemplateSpec.ObjectMeta (Template (Service.Spec s))),
             RevisionTemplateSpec.Spec (Template (Service.Spec s)))) acc @
   map (\<lambda>r. (Name (Revision.ObjectMeta r), Revision.Spec r))
     (filter (\<lambda>r. routed revsMap (Name (Revision.ObjectMeta r)) \<and>
                 Name (Revision.ObjectMeta r) \<noteq>
                   Name (RevisionTemplateSpec.ObjectMeta (Template (Service.Spec latestSvc))))
        revs)"
  by (induction revs arbitrary: h acc)
     (simp_all add: case_prod_beta constructServiceFromRevision_snd DeepCopy_Revision_frame)

lemma importItems_items:
  "map (\<lambda>r. (Name (Revision.ObjectMeta r), Revision.Spec r))
     (snd (importItems h latestSvc revsMap revs acc)) =
   map (\<lambda>r. (Name (Revision.ObjectMeta r), Revision.Spec r)) acc @
   map (\<lambda>r. (Name (Revision.ObjectMeta r), Revision.Spec r))
     (filter (\<lambda>r. routed revsMap (Name (Revision.ObjectMeta r)) \<and>
                 Name (Revision.ObjectMeta r) \<noteq>
                   Name (RevisionTemplateSpec.ObjectMeta (Template (Service.Spec latestSvc))))
        revs)"
  by (induction revs arbitrary: h acc)
     (simp_all add: case_prod_beta exportRevision_frame DeepCopy_Revision_frame)

lemma length_sortRevisions: "length (sortRevisions h items) = length items"
  using mset_insertionSort [of "revisionListSortFunc h" items]
  unfolding sortRevisions_def SliceStable_def by (metis size_mset)

lemma getRevisionsToExport_Inr:
  "items \<noteq> [] \<Longrightarrow>
   getRevisionsToExport h latestSvc (Inr items) =
     Inr (sortRevisions h items, getRoutedRevisions h latestSvc)"
  by (simp add: getRevisionsToExport_def)

lemma exportServiceListForReplay_True:
  "items \<noteq> [] \<Longrightarrow>
   exportServiceListForReplay h latestSvc (Inr items) True =
     (fst (exportLatestService
             (fst (replayItems h latestSvc (getRoutedRevisions h latestSvc)
                     (sortRevisions h items) []))
             latestSvc (1 < length items)),
      Inr (ServiceListObject
             \<lparr>ServiceList.TypeMeta = \<lparr>Kind = ''List'', APIVersion = ''v1''\<rparr>,
              Items =
                snd (replayItems h latestSvc (getRoutedRevisions h latestSvc)
                       (sortRevisions h items) []) @
                [snd (exportLatestService h latestSvc (1 < length items))]\<rparr>))"
  by (simp add: exportServiceListForReplay_def getRevisionsToExport_Inr case_prod_beta
        length_sortRevisions exportLatestService_snd)

lemma exportForKNImport_True:
  "items \<noteq> [] \<Longrightarrow>
   exportForKNImport h latestSvc (Inr items) True =
     (fst (exportLatestService
             (fst (importItems h latestSvc (getRoutedRevisions h latestSvc)
                     (sortRevisions h items) []))
             latestSvc (1 < length items)),
      Inr \<lparr>Export.TypeMeta =
             \<lparr>Kind = ''Export'', APIVersion = ''client.knative.dev/v1alpha1''\<rparr>,
           Export.Spec =
             \<lparr>Service = snd (exportLatestService h latestSvc (1 < length items)),
              Revisions =
                snd (importItems h latestSvc (getRoutedRevisions h latestSvc)
                       (sortRevisions h items) [])\<rparr>\<rparr>)"
  by (simp add: exportForKNImport_def getRevisionsToExport_Inr case_prod_beta
        length_sortRevisions exportLatestService_snd)

lemma DeepCopy_Service_name:
  "Name (Service.ObjectMeta (snd (DeepCopy_Service h s))) = Name (Service.ObjectMeta s)"
  by (simp add: DeepCopy_Service_def case_prod_beta Let_def DeepCopy_ObjectMeta_frame)

lemma historicalRevisions_kept:
  "historicalRevisions h latestSvc items = filter (kept h latestSvc) (sortRevisions h items)"
  by (simp add: historicalRevisions_def kept_def [abs_def])

lemma mset_historicalRevisions:
  "mset (map f (historicalRevisions h latestSvc items)) =
   mset (map f (filter (kept h latestSvc) items))"
  by (simp add: historicalRevisions_kept mset_sortRevisions)

lemma sorted_historicalRevisions:
  assumes "strict_weak_on (set items) (revisionListSortFunc h)"
  shows "sorted_wrt (inOrder h) (historicalRevisions h latestSvc items)"
  unfolding historicalRevisions_kept
  by (rule sorted_wrt_filter [OF sorted_sortRevisions [OF assms]])

lemma filter_commute: "filter P (filter Q xs) = filter Q (filter P xs)"
  by (induction xs) auto

lemma stable_historicalRevisions:
  assumes "strict_weak_on (set items) (revisionListSortFunc h)" "c \<in> set items"
  shows "filter (\<lambda>r. \<not> revisionListSortFunc h c r \<and> \<not> revisionListSortFunc h r c)
           (historicalRevisions h latestSvc items) =
         filter (\<lambda>r. \<not> revisionListSortFunc h c r \<and> \<not> revisionListSortFunc h r c)
           (filter (kept h latestSvc) items)"
  unfolding historicalRevisions_kept
  by (subst (1 2) filter_commute) (simp only: stable_sortRevisions [OF assms])

lemma current_not_kept:
  "Name (RevisionTemplateSpec.ObjectMeta (Template (Service.Spec latestSvc))) \<notin>
     set (map (\<lambda>r. Name (Revision.ObjectMeta r)) (historicalRevisions h latestSvc items))"
  by (auto simp add: historicalRevisions_def)

lemma replay_history:
  "map (\<lambda>s. (Name (RevisionTemplateSpec.ObjectMeta (Template (Service.Spec s))),
             RevisionTemplateSpec.Spec (Template (Service.Spec s))))
     (snd (replayItems h latestSvc (getRoutedRevisions h latestSvc) (sortRevisions h items) [])) =
   map (\<lambda>r. (Name (Revision.ObjectMeta r), Revision.Spec r))
     (historicalRevisions h latestSvc items)"
  by (simp add: replayItems_items historicalRevisions_def)

lemma import_history:
  "map (\<lambda>r. (Name (Revision.ObjectMeta r), Revision.Spec r))
     (snd (importItems h latestSvc (getRoutedRevisions h latestSvc) (sortRevisions h items) [])) =
   map (\<lambda>r. (Name (Revision.ObjectMeta r), Revision.Spec r))
     (historicalRevisions h latestSvc items)"
  by (simp add: importItems_items historicalRevisions_def)

lemma names_of_pairs:
  "map f xs = map g ys \<Longrightarrow> map (\<lambda>x. fst (f x)) xs = map (\<lambda>y. fst (g y)) ys"
proof -
  assume e: "map f xs = map g ys"
  have "map (\<lambda>x. fst (f x)) xs = map fst (map f xs)" by (simp add: comp_def)
  also have "\<dots> = map fst (map g ys)" by (simp only: e)
  also have "\<dots> = map (\<lambda>y. fst (g y)) ys" by (simp add: comp_def)
  finally show ?thesis .
qed

lemma replayItems_services:
  "s \<in> set (snd (replayItems h latestSvc revsMap revs acc)) \<Longrightarrow>
   s \<in> set acc \<or>
   (Service.TypeMeta s = Service.TypeMeta latestSvc \<and>
    Service.ObjectMeta s =
      \<lparr>Name = Name (Service.ObjectMeta latestSvc), Namespace = [],
       Labels = Labels (Service.ObjectMeta latestSvc),
       Annotations = Annotations (Service.ObjectMeta latestSvc)\<rparr> \<and>
    RouteSpec (Service.Spec s) = \<lparr>Traffic = None\<rparr>)"
proof (induction revs arbitrary: h acc)
  case Nil
  then show ?case by simp
next
  case (Cons revision rest)
  show ?case
  proof (cases "routed revsMap (Name (Revision.ObjectMeta revision)) \<and>
         Name (Revision.ObjectMeta revision) \<noteq>
           Name (RevisionTemplateSpec.ObjectMeta (Template (Service.Spec latestSvc)))")
    case True
    let ?c = "DeepCopy_Revision h revision"
    let ?e = "constructServiceFromRevision (fst ?c) latestSvc (snd ?c)"
    from Cons.prems True
    have "s \<in> set (snd (replayItems (fst ?e) latestSvc revsMap rest (acc @ [snd ?e])))"
      by (simp add: case_prod_beta)
    from Cons.IH [OF this] show ?thesis
      by (auto simp add: constructServiceFromRevision_snd)
  next
    case False
    with Cons.prems have "s \<in> set (snd (replayItems h latestSvc revsMap rest acc))"
      by auto
    from Cons.IH [OF this] show ?thesis .
  qed
qed

subsection \<open>The example, evaluated\<close>

lemmas ex_defs = ex_store_def ex_service_def ex_revision1_def ex_revision2_def ex_items_def

lemmas eval_defs =
  sortRevisions_def SliceStable_def insertionSort_def insertionSort_inner.simps swap_def
  revisionListSortFunc_def index_def ConfigurationGenerationLabelKey_def Atoi_def isDigit_def
  getRoutedRevisions_def routed_def elems_def Let_def

lemma ex_sorted: "sortRevisions ex_store ex_items = [ex_revision1, ex_revision2]"
  by (simp add: ex_defs eval_defs)

lemma ex_less:
  "revisionListSortFunc ex_store ex_revision1 ex_revision1 = False"
  "revisionListSortFunc ex_store ex_revision1 ex_revision3 = False"
  "revisionListSortFunc ex_store ex_revision3 ex_revision1 = True"
  "revisionListSortFunc ex_store ex_revision3 ex_revision3 = False"
  by (simp_all add: ex_store_def ex_revision1_def ex_revision3_def eval_defs)

lemma ex_swo_mixed:
  "strict_weak_on (set [ex_revision1, ex_revision3]) (revisionListSortFunc ex_store)"
  by (simp add: strict_weak_on_def ex_less)

lemma ex_sorted_mixed:
  "sortRevisions ex_store [ex_revision1, ex_revision3] = [ex_revision3, ex_revision1]"
  by (simp add: ex_store_def ex_revision1_def ex_revision3_def eval_defs)

lemmas ex2_defs = ex_store2_def ex_store_def ex_service2_def ex_unrouted_def ex_current_def
  ex_revision1_def ex_revision2_def

lemma ex2_generation:
  "generation ex_store2 ex_revision1 = Some 1"
  "generation ex_store2 ex_revision2 = Some 2"
  "generation ex_store2 ex_unrouted = Some 3"
  "generation ex_store2 ex_current = Some 4"
  by (simp_all add: ex2_defs generation_def eval_defs)

lemma ex2_sorted:
  "sortRevisions ex_store2 ex_items2 = [ex_revision1, ex_revision2, ex_unrouted, ex_current]"
  by (simp add: ex_items2_def ex2_defs eval_defs)

lemma ex2_kept:
  "kept ex_store2 ex_service2 ex_revision1"
  "kept ex_store2 ex_service2 ex_revision2"
  "\<not> kept ex_store2 ex_service2 ex_unrouted"
  "\<not> kept ex_store2 ex_service2 ex_current"
  "routed (getRoutedRevisions ex_store2 ex_service2) (Name (Revision.ObjectMeta ex_current))"
  by (simp_all add: kept_def ex2_defs eval_defs)

lemma ex2_historical:
  "historicalRevisions ex_store2 ex_service2 ex_items2 = [ex_revision1, ex_revision2]"
  by (simp add: historicalRevisions_kept ex2_sorted ex2_kept)

lemma ex2_swo: "strict_weak_on (set ex_items2) (revisionListSortFunc ex_store2)"
  by (rule swo_uniform) (simp add: ex_items2_def ex2_generation)

lemma ex2_sortModelled: "sortModelled ex_store2 ex_items2"
  by (simp add: sortModelled_def ex_items2_def)

lemma ex2_pairs:
  "map (\<lambda>r. (Name (Revision.ObjectMeta r), Revision.Spec r))
     (historicalRevisions ex_store2 ex_service2 ex_items2) =
   [(''foo-00001'', 1), (''foo-00002'', 2)]"
  unfolding ex2_historical by (simp add: ex_revision1_def ex_revision2_def)

subsection \<open>The order of the sorted revisions\<close>

text \<open>
  Claim C1, as amended. For every two revisions the comparison decides as the claim
  says: with two parsed generations that differ, the smaller generation is less; with
  two equal parsed generations, or with a label that is missing or does not parse on
  either side, the lexically greater name is less. \<^verbatim>\<open>sortRevisions\<close> returns a
  permutation of the list. For every list on whose revisions the comparison is a strict
  weak order (every list whose generation labels all parse, or of which none parses, is
  one, and so are mixed lists without a cycle) the result is in the order of the claim:
  of any two revisions, the one that stands first is not put after the other by the
  comparison (smaller generation first; greater name first with equal generations or
  an unparsed label), and revisions that the comparison does not order keep the order
  they came in.
\<close>

theorem sortRevisions_ordered:
  "(\<forall>a b. revisionListSortFunc h a b =
            (case (generation h a, generation h b) of
               (Some agen, Some bgen) \<Rightarrow>
                 agen < bgen \<or>
                 (agen = bgen \<and> Name (Revision.ObjectMeta b) < Name (Revision.ObjectMeta a))
             | _ \<Rightarrow> Name (Revision.ObjectMeta b) < Name (Revision.ObjectMeta a))) \<and>
   mset (sortRevisions h items) = mset items \<and>
   ((\<forall>r\<in>set items. generation h r \<noteq> None) \<or> (\<forall>r\<in>set items. generation h r = None) \<longrightarrow>
      strict_weak_on (set items) (revisionListSortFunc h)) \<and>
   (strict_weak_on (set items) (revisionListSortFunc h) \<longrightarrow>
      sorted_wrt (inOrder h) (sortRevisions h items) \<and>
      (\<forall>c\<in>set items.
         filter (\<lambda>r. \<not> revisionListSortFunc h c r \<and> \<not> revisionListSortFunc h r c)
           (sortRevisions h items) =
         filter (\<lambda>r. \<not> revisionListSortFunc h c r \<and> \<not> revisionListSortFunc h r c) items))"
proof (intro conjI impI allI ballI)
  fix a b
  show "revisionListSortFunc h a b =
            (case (generation h a, generation h b) of
               (Some agen, Some bgen) \<Rightarrow>
                 agen < bgen \<or>
                 (agen = bgen \<and> Name (Revision.ObjectMeta b) < Name (Revision.ObjectMeta a))
             | _ \<Rightarrow> Name (Revision.ObjectMeta b) < Name (Revision.ObjectMeta a))"
    by (rule less_cases)
next
  show "mset (sortRevisions h items) = mset items" by (rule mset_sortRevisions)
next
  assume "(\<forall>r\<in>set items. generation h r \<noteq> None) \<or> (\<forall>r\<in>set items. generation h r = None)"
  then show "strict_weak_on (set items) (revisionListSortFunc h)" by (rule swo_uniform)
next
  assume "strict_weak_on (set items) (revisionListSortFunc h)"
  then show "sorted_wrt (inOrder h) (sortRevisions h items)" by (rule sorted_sortRevisions)
next
  fix c
  assume "strict_weak_on (set items) (revisionListSortFunc h)" "c \<in> set items"
  then show "filter (\<lambda>r. \<not> revisionListSortFunc h c r \<and> \<not> revisionListSortFunc h r c)
           (sortRevisions h items) =
         filter (\<lambda>r. \<not> revisionListSortFunc h c r \<and> \<not> revisionListSortFunc h r c) items"
    by (rule stable_sortRevisions)
qed

text \<open>
  A mixed list on which the comparison is a strict weak order, and a list whose labels
  all parse.
\<close>

theorem sortRevisions_ordered_witness:
  "strict_weak_on (set [ex_revision1, ex_revision3]) (revisionListSortFunc ex_store) \<and>
   generation ex_store ex_revision1 = Some 1 \<and>
   generation ex_store ex_revision3 = None \<and>
   sortRevisions ex_store [ex_revision1, ex_revision3] = [ex_revision3, ex_revision1] \<and>
   sorted_wrt (inOrder ex_store) (sortRevisions ex_store [ex_revision1, ex_revision3]) \<and>
   generation ex_store ex_revision2 = Some 2 \<and>
   strict_weak_on (set ex_items) (revisionListSortFunc ex_store) \<and>
   sortRevisions ex_store ex_items = [ex_revision1, ex_revision2] \<and>
   sorted_wrt (inOrder ex_store) (sortRevisions ex_store ex_items)"
proof -
  have g: "generation ex_store ex_revision1 = Some 1" "generation ex_store ex_revision2 = Some 2"
    "generation ex_store ex_revision3 = None"
    by (simp_all add: ex_store_def ex_revision1_def ex_revision2_def ex_revision3_def
          generation_def eval_defs)
  have parsed: "\<forall>r\<in>set ex_items. generation ex_store r \<noteq> None"
    by (simp add: ex_items_def g)
  note mixed = sortRevisions_ordered [of ex_store "[ex_revision1, ex_revision3]"]
  note uniform = sortRevisions_ordered [of ex_store ex_items]
  from uniform parsed have swo: "strict_weak_on (set ex_items) (revisionListSortFunc ex_store)"
    by blast
  from uniform swo have s2: "sorted_wrt (inOrder ex_store) (sortRevisions ex_store ex_items)"
    by blast
  from mixed ex_swo_mixed
  have s1: "sorted_wrt (inOrder ex_store) (sortRevisions ex_store [ex_revision1, ex_revision3])"
    by blast
  show ?thesis
    using ex_swo_mixed g(1,3) ex_sorted_mixed s1 g(2) swo ex_sorted s2 by (intro conjI)
qed

text \<open>
  The claim as stated covers every list. In a list that mixes labels that parse with
  labels that do not, the comparison is not transitive, and the sort leaves the revision
  of generation 2 before the revision of generation 1: the revision between them has no
  label, and the names alone decide its two comparisons.
\<close>

theorem smaller_generation_sorted_last:
  "sortRevisions ex_store [ex_revision2, ex_revision3, ex_revision1] =
     [ex_revision2, ex_revision3, ex_revision1] \<and>
   generation ex_store ex_revision2 = Some 2 \<and>
   generation ex_store ex_revision3 = None \<and>
   generation ex_store ex_revision1 = Some 1"
  by (simp add: ex_store_def ex_revision1_def ex_revision2_def ex_revision3_def
        generation_def eval_defs)

subsection \<open>The historical revisions\<close>

text \<open>
  Claim C3. With history requested and a query that returns at least one revision, the
  service items of the replay list before its last item, and the revisions of the import
  artifact, are exactly the revisions of the queried list that are routed and are not
  named as the live template is, each once, with the name and the spec of its revision;
  the live template's name is not among their names, routed or not. Each loop keeps the
  order of the list it runs over, whatever that list is; so on the lists of
  \<open>sortModelled\<close> the items stand in the order of the sorted list, and where the
  comparison is a strict weak order on the queried revisions, that order is the order
  of the comparison (\<open>inOrder\<close>), stable with respect to the queried list.
\<close>

theorem history_excludes_current:
  assumes "items \<noteq> []"
  shows
    "(\<exists>h' l. exportServiceListForReplay h latestSvc (Inr items) True =
               (h', Inr (ServiceListObject l)) \<and>
             mset (map (\<lambda>s. (Name (RevisionTemplateSpec.ObjectMeta (Template (Service.Spec s))),
                             RevisionTemplateSpec.Spec (Template (Service.Spec s))))
                     (butlast (Items l))) =
             mset (map (\<lambda>r. (Name (Revision.ObjectMeta r), Revision.Spec r))
                     (filter (kept h latestSvc) items)) \<and>
             Name (RevisionTemplateSpec.ObjectMeta (Template (Service.Spec latestSvc))) \<notin>
               set (map (\<lambda>s. Name (RevisionTemplateSpec.ObjectMeta (Template (Service.Spec s))))
                      (butlast (Items l))) \<and>
             (sortModelled h items \<longrightarrow>
                map (\<lambda>s. (Name (RevisionTemplateSpec.ObjectMeta (Template (Service.Spec s))),
                          RevisionTemplateSpec.Spec (Template (Service.Spec s))))
                  (butlast (Items l)) =
                map (\<lambda>r. (Name (Revision.ObjectMeta r), Revision.Spec r))
                  (historicalRevisions h latestSvc items))) \<and>
     (\<exists>h' x. exportForKNImport h latestSvc (Inr items) True = (h', Inr x) \<and>
             mset (map (\<lambda>r. (Name (Revision.ObjectMeta r), Revision.Spec r))
                     (Revisions (Export.Spec x))) =
             mset (map (\<lambda>r. (Name (Revision.ObjectMeta r), Revision.Spec r))
                     (filter (kept h latestSvc) items)) \<and>
             Name (RevisionTemplateSpec.ObjectMeta (Template (Service.Spec latestSvc))) \<notin>
               set (map (\<lambda>r. Name (Revision.ObjectMeta r)) (Revisions (Export.Spec x))) \<and>
             (sortModelled h items \<longrightarrow>
                map (\<lambda>r. (Name (Revision.ObjectMeta r), Revision.Spec r))
                  (Revisions (Export.Spec x)) =
                map (\<lambda>r. (Name (Revision.ObjectMeta r), Revision.Spec r))
                  (historicalRevisions h latestSvc items))) \<and>
     map (\<lambda>s. (Name (RevisionTemplateSpec.ObjectMeta (Template (Service.Spec s))),
               RevisionTemplateSpec.Spec (Template (Service.Spec s))))
       (snd (replayItems h latestSvc revsMap revisionList [])) =
     map (\<lambda>r. (Name (Revision.ObjectMeta r), Revision.Spec r))
       (filter (\<lambda>r. routed revsMap (Name (Revision.ObjectMeta r)) \<and>
                   Name (Revision.ObjectMeta r) \<noteq>
                     Name (RevisionTemplateSpec.ObjectMeta (Template (Service.Spec latestSvc))))
          revisionList) \<and>
     map (\<lambda>r. (Name (Revision.ObjectMeta r), Revision.Spec r))
       (snd (importItems h latestSvc revsMap revisionList [])) =
     map (\<lambda>r. (Name (Revision.ObjectMeta r), Revision.Spec r))
       (filter (\<lambda>r. routed revsMap (Name (Revision.ObjectMeta r)) \<and>
                   Name (Revision.ObjectMeta r) \<noteq>
                     Name (RevisionTemplateSpec.ObjectMeta (Template (Service.Spec latestSvc))))
          revisionList) \<and>
     (strict_weak_on (set items) (revisionListSortFunc h) \<longrightarrow>
        sorted_wrt (inOrder h) (historicalRevisions h latestSvc items) \<and>
        (\<forall>c\<in>set items.
           filter (\<lambda>r. \<not> revisionListSortFunc h c r \<and> \<not> revisionListSortFunc h r c)
             (historicalRevisions h latestSvc items) =
           filter (\<lambda>r. \<not> revisionListSortFunc h c r \<and> \<not> revisionListSortFunc h r c)
             (filter (kept h latestSvc) items)))"
proof -
  let ?svcs = "snd (replayItems h latestSvc (getRoutedRevisions h latestSvc)
                      (sortRevisions h items) [])"
  let ?revs = "snd (importItems h latestSvc (getRoutedRevisions h latestSvc)
                      (sortRevisions h items) [])"
  note r1 = replay_history [of h latestSvc items]
  note i1 = import_history [of h latestSvc items]
  note r2 = names_of_pairs [OF r1, simplified fst_conv]
  note i2 = names_of_pairs [OF i1, simplified fst_conv]
  have replay: "\<exists>h' l. exportServiceListForReplay h latestSvc (Inr items) True =
               (h', Inr (ServiceListObject l)) \<and>
             mset (map (\<lambda>s. (Name (RevisionTemplateSpec.ObjectMeta (Template (Service.Spec s))),
                             RevisionTemplateSpec.Spec (Template (Service.Spec s))))
                     (butlast (Items l))) =
             mset (map (\<lambda>r. (Name (Revision.ObjectMeta r), Revision.Spec r))
                     (filter (kept h latestSvc) items)) \<and>
             Name (RevisionTemplateSpec.ObjectMeta (Template (Service.Spec latestSvc))) \<notin>
               set (map (\<lambda>s. Name (RevisionTemplateSpec.ObjectMeta (Template (Service.Spec s))))
                      (butlast (Items l))) \<and>
             (sortModelled h items \<longrightarrow>
                map (\<lambda>s. (Name (RevisionTemplateSpec.ObjectMeta (Template (Service.Spec s))),
                          RevisionTemplateSpec.Spec (Template (Service.Spec s))))
                  (butlast (Items l)) =
                map (\<lambda>r. (Name (Revision.ObjectMeta r), Revision.Spec r))
                  (historicalRevisions h latestSvc items))"
    using r1 r2 current_not_kept [of latestSvc h items]
      mset_historicalRevisions [of "\<lambda>r. (Name (Revision.ObjectMeta r), Revision.Spec r)"
        h latestSvc items]
    by (simp add: exportServiceListForReplay_True [OF assms] del: set_map map_map mset_map)
  have import: "\<exists>h' x. exportForKNImport h latestSvc (Inr items) True = (h', Inr x) \<and>
             mset (map (\<lambda>r. (Name (Revision.ObjectMeta r), Revision.Spec r))
                     (Revisions (Export.Spec x))) =
             mset (map (\<lambda>r. (Name (Revision.ObjectMeta r), Revision.Spec r))
                     (filter (kept h latestSvc) items)) \<and>
             Name (RevisionTemplateSpec.ObjectMeta (Template (Service.Spec latestSvc))) \<notin>
               set (map (\<lambda>r. Name (Revision.ObjectMeta r)) (Revisions (Export.Spec x))) \<and>
             (sortModelled h items \<longrightarrow>
                map (\<lambda>r. (Name (Revision.ObjectMeta r), Revision.Spec r))
                  (Revisions (Export.Spec x)) =
                map (\<lambda>r. (Name (Revision.ObjectMeta r), Revision.Spec r))
                  (historicalRevisions h latestSvc items))"
    using i1 i2 current_not_kept [of latestSvc h items]
      mset_historicalRevisions [of "\<lambda>r. (Name (Revision.ObjectMeta r), Revision.Spec r)"
        h latestSvc items]
    by (simp add: exportForKNImport_True [OF assms] del: set_map map_map mset_map)
  have order: "strict_weak_on (set items) (revisionListSortFunc h) \<longrightarrow>
        sorted_wrt (inOrder h) (historicalRevisions h latestSvc items) \<and>
        (\<forall>c\<in>set items.
           filter (\<lambda>r. \<not> revisionListSortFunc h c r \<and> \<not> revisionListSortFunc h r c)
             (historicalRevisions h latestSvc items) =
           filter (\<lambda>r. \<not> revisionListSortFunc h c r \<and> \<not> revisionListSortFunc h r c)
             (filter (kept h latestSvc) items))"
    using sorted_historicalRevisions stable_historicalRevisions by blast
  from replay import order
    replayItems_items [of h latestSvc revsMap revisionList "[]"]
    importItems_items [of h latestSvc revsMap revisionList "[]"]
  show ?thesis by (intro conjI) simp_all
qed

text \<open>
  In the second example the live template's revision is routed and is left out, the
  unrouted revision is left out, and the two others come out oldest first, in the
  reverse of the order the query returned them in.
\<close>

theorem history_excludes_current_witness:
  "ex_items2 \<noteq> [] \<and>
   sortModelled ex_store2 ex_items2 \<and>
   strict_weak_on (set ex_items2) (revisionListSortFunc ex_store2) \<and>
   Name (RevisionTemplateSpec.ObjectMeta (Template (Service.Spec ex_service2))) = ''foo-00004'' \<and>
   routed (getRoutedRevisions ex_store2 ex_service2) ''foo-00004'' \<and>
   (\<exists>h' l. exportServiceListForReplay ex_store2 ex_service2 (Inr ex_items2) True =
               (h', Inr (ServiceListObject l)) \<and>
             map (\<lambda>s. (Name (RevisionTemplateSpec.ObjectMeta (Template (Service.Spec s))),
                       RevisionTemplateSpec.Spec (Template (Service.Spec s))))
               (butlast (Items l)) = [(''foo-00001'', 1), (''foo-00002'', 2)]) \<and>
   (\<exists>h' x. exportForKNImport ex_store2 ex_service2 (Inr ex_items2) True = (h', Inr x) \<and>
             map (\<lambda>r. (Name (Revision.ObjectMeta r), Revision.Spec r))
               (Revisions (Export.Spec x)) = [(''foo-00001'', 1), (''foo-00002'', 2)]) \<and>
   sorted_wrt (inOrder ex_store2) (historicalRevisions ex_store2 ex_service2 ex_items2)"
proof -
  have ne: "ex_items2 \<noteq> []" by (simp add: ex_items2_def)
  have cur: "Name (RevisionTemplateSpec.ObjectMeta (Template (Service.Spec ex_service2))) =
             ''foo-00004''"
    by (simp add: ex_service2_def)
  have rt: "routed (getRoutedRevisions ex_store2 ex_service2) ''foo-00004''"
    using ex2_kept(5) by (simp add: ex_current_def)
  note inst = history_excludes_current [OF ne, of ex_store2 ex_service2]
  from inst [THEN conjunct1] obtain h1 l where replay:
    "exportServiceListForReplay ex_store2 ex_service2 (Inr ex_items2) True =
       (h1, Inr (ServiceListObject l))"
    "sortModelled ex_store2 ex_items2 \<longrightarrow>
     map (\<lambda>s. (Name (RevisionTemplateSpec.ObjectMeta (Template (Service.Spec s))),
               RevisionTemplateSpec.Spec (Template (Service.Spec s))))
       (butlast (Items l)) =
     map (\<lambda>r. (Name (Revision.ObjectMeta r), Revision.Spec r))
       (historicalRevisions ex_store2 ex_service2 ex_items2)"
    by (elim exE conjE) (rule that)
  from inst [THEN conjunct2, THEN conjunct1] obtain h2 x where imported:
    "exportForKNImport ex_store2 ex_service2 (Inr ex_items2) True = (h2, Inr x)"
    "sortModelled ex_store2 ex_items2 \<longrightarrow>
     map (\<lambda>r. (Name (Revision.ObjectMeta r), Revision.Spec r)) (Revisions (Export.Spec x)) =
     map (\<lambda>r. (Name (Revision.ObjectMeta r), Revision.Spec r))
       (historicalRevisions ex_store2 ex_service2 ex_items2)"
    by (elim exE conjE) (rule that)
  note order =
    mp [OF inst [THEN conjunct2, THEN conjunct2, THEN conjunct2, THEN conjunct2] ex2_swo,
      THEN conjunct1]
  note r = mp [OF replay(2) ex2_sortModelled, unfolded ex2_pairs]
  note i = mp [OF imported(2) ex2_sortModelled, unfolded ex2_pairs]
  show ?thesis
    using ne ex2_sortModelled ex2_swo cur rt replay(1) r imported(1) i order
    by (intro conjI exI)
qed

subsection \<open>No revisions\<close>

text \<open>
  Claim C4. When the query returns the empty list, \<^verbatim>\<open>getRevisionsToExport\<close> returns the
  error \<open>no revisions found for the service\<close> followed by the service's name, and with
  history requested (the only case in which the query is made) both assemblers, and
  \<^verbatim>\<open>exportService\<close> in either mode, return that error: no object reaches the printer.
\<close>

theorem empty_history_is_an_error:
  "getRevisionsToExport h latestSvc (Inr []) =
     Inl (Error (''no revisions found for the service '' @ Name (Service.ObjectMeta latestSvc))) \<and>
   snd (exportServiceListForReplay h latestSvc (Inr []) True) =
     Inl (Error (''no revisions found for the service '' @ Name (Service.ObjectMeta latestSvc))) \<and>
   snd (exportForKNImport h latestSvc (Inr []) True) =
     Inl (Error (''no revisions found for the service '' @ Name (Service.ObjectMeta latestSvc))) \<and>
   snd (exportService h service (Inr []) True mode) =
     Inl (Error (''no revisions found for the service '' @ Name (Service.ObjectMeta service)))"
  by (simp add: getRevisionsToExport_def exportServiceListForReplay_def exportForKNImport_def
        exportService_def case_prod_beta DeepCopy_Service_name)

subsection \<open>Routes in the latest-state service\<close>

text \<open>
  Claim C5. With history requested and a query that returns at least one revision, the
  latest-state service (the last item of the replay list, the service of the import
  artifact) has the route spec of the live service if the query returned more than one
  revision, and the empty route spec otherwise; its traffic targets are then the live
  ones with the latest revision's name filled in, and none otherwise. So for a live
  service that has a traffic slice, the latest-state service has one if and only if the
  query returned more than one revision.
\<close>

theorem routes_iff_more_than_one_revision:
  assumes "items \<noteq> []"
  shows
    "(\<exists>h' l. exportServiceListForReplay h latestSvc (Inr items) True =
               (h', Inr (ServiceListObject l)) \<and>
             Items l \<noteq> [] \<and>
             RouteSpec (Service.Spec (last (Items l))) =
               (if 1 < length items then RouteSpec (Service.Spec latestSvc)
                else \<lparr>Traffic = None\<rparr>) \<and>
             elems h' (Traffic (RouteSpec (Service.Spec (last (Items l))))) =
               (if 1 < length items
                then map (materialize (LatestReadyRevisionName (Service.Status latestSvc)))
                       (elems h (Traffic (RouteSpec (Service.Spec latestSvc))))
                else []) \<and>
             (Traffic (RouteSpec (Service.Spec latestSvc)) \<noteq> None \<longrightarrow>
                (Traffic (RouteSpec (Service.Spec (last (Items l)))) \<noteq> None) =
                (1 < length items))) \<and>
     (\<exists>h' x. exportForKNImport h latestSvc (Inr items) True = (h', Inr x) \<and>
             RouteSpec (Service.Spec (Service (Export.Spec x))) =
               (if 1 < length items then RouteSpec (Service.Spec latestSvc)
                else \<lparr>Traffic = None\<rparr>) \<and>
             elems h' (Traffic (RouteSpec (Service.Spec (Service (Export.Spec x))))) =
               (if 1 < length items
                then map (materialize (LatestReadyRevisionName (Service.Status latestSvc)))
                       (elems h (Traffic (RouteSpec (Service.Spec latestSvc))))
                else []) \<and>
             (Traffic (RouteSpec (Service.Spec latestSvc)) \<noteq> None \<longrightarrow>
                (Traffic (RouteSpec (Service.Spec (Service (Export.Spec x)))) \<noteq> None) =
                (1 < length items)))"
  by (simp add: exportServiceListForReplay_True [OF assms] exportForKNImport_True [OF assms]
        exportLatestService_snd exportLatestService_arrays replayItems_arrays importItems_arrays
        elems_def split: option.splits)

text \<open>
  In the example the query returns two revisions and the traffic of the latest-state
  service names the two revisions; where it returns one, the route spec is empty.
\<close>

theorem routes_iff_more_than_one_revision_witness:
  "ex_items \<noteq> [] \<and>
   Traffic (RouteSpec (Service.Spec ex_service)) \<noteq> None \<and>
   (\<exists>h' l. exportServiceListForReplay ex_store ex_service (Inr ex_items) True =
               (h', Inr (ServiceListObject l)) \<and>
            Traffic (RouteSpec (Service.Spec (last (Items l)))) \<noteq> None \<and>
            elems h' (Traffic (RouteSpec (Service.Spec (last (Items l))))) =
              [\<lparr>Tag = [], RevisionName = ''foo-00001'', ConfigurationName = [],
                LatestRevision = Some False, Percent = Some 50\<rparr>,
               \<lparr>Tag = [], RevisionName = ''foo-00002'', ConfigurationName = [],
                LatestRevision = Some True, Percent = Some 50\<rparr>]) \<and>
   (\<exists>h' l. exportServiceListForReplay ex_store ex_service (Inr [ex_revision2]) True =
               (h', Inr (ServiceListObject l)) \<and>
            Traffic (RouteSpec (Service.Spec (last (Items l)))) = None)"
proof -
  have ne: "ex_items \<noteq> []" and ne1: "[ex_revision2] \<noteq> []" by (simp_all add: ex_items_def)
  have len: "1 < length ex_items" "\<not> 1 < length [ex_revision2]" by (simp_all add: ex_items_def)
  have tr: "Traffic (RouteSpec (Service.Spec ex_service)) \<noteq> None" by (simp add: ex_service_def)
  have t: "map (materialize (LatestReadyRevisionName (Service.Status ex_service)))
             (elems ex_store (Traffic (RouteSpec (Service.Spec ex_service)))) =
           [\<lparr>Tag = [], RevisionName = ''foo-00001'', ConfigurationName = [],
             LatestRevision = Some False, Percent = Some 50\<rparr>,
            \<lparr>Tag = [], RevisionName = ''foo-00002'', ConfigurationName = [],
             LatestRevision = Some True, Percent = Some 50\<rparr>]"
    by (simp add: ex_store_def ex_service_def elems_def materialize_def)
  from routes_iff_more_than_one_revision [OF ne, of ex_store ex_service]
  obtain h2 l2 where two:
    "exportServiceListForReplay ex_store ex_service (Inr ex_items) True =
       (h2, Inr (ServiceListObject l2))"
    "elems h2 (Traffic (RouteSpec (Service.Spec (last (Items l2))))) =
       map (materialize (LatestReadyRevisionName (Service.Status ex_service)))
         (elems ex_store (Traffic (RouteSpec (Service.Spec ex_service))))"
    "Traffic (RouteSpec (Service.Spec (last (Items l2)))) \<noteq> None"
    unfolding if_P [OF len(1)] using tr len(1) by blast
  from routes_iff_more_than_one_revision [OF ne1, of ex_store ex_service]
  obtain h1 l1 where one:
    "exportServiceListForReplay ex_store ex_service (Inr [ex_revision2]) True =
       (h1, Inr (ServiceListObject l1))"
    "RouteSpec (Service.Spec (last (Items l1))) = \<lparr>Traffic = None\<rparr>"
    unfolding if_not_P [OF len(2)] by blast
  have "Traffic (RouteSpec (Service.Spec (last (Items l1)))) = None"
    unfolding one(2) by simp
  with ne tr two one(1) show ?thesis unfolding t by blast
qed

subsection \<open>The shape of the replay artifact\<close>

text \<open>
  Claim C7, as amended. Without history the replay export returns the latest-state
  service itself, not a list. With history and a query that returns at least one
  revision it returns a list object of kind \<open>List\<close> and API version \<open>v1\<close>, whose items
  are the services built for the historical revisions followed by the latest-state
  service as its last item. The services before the last are one for each routed
  revision of the queried list that is not the live template's, with the name and the
  spec of that revision in the template and the type, name, label map and annotation
  map of the live service, without routes; on the lists of \<open>sortModelled\<close> they stand
  in the order of the sorted list.
\<close>

theorem replay_artifact_shape:
  "snd (exportServiceListForReplay h latestSvc listRevisions False) =
     Inr (ServiceObject (snd (exportLatestService h latestSvc False))) \<and>
   (items \<noteq> [] \<longrightarrow>
      (\<exists>h' hist.
          exportServiceListForReplay h latestSvc (Inr items) True =
            (h', Inr (ServiceListObject
                        \<lparr>ServiceList.TypeMeta = \<lparr>Kind = ''List'', APIVersion = ''v1''\<rparr>,
                         Items = hist @ [snd (exportLatestService h latestSvc
                                                (1 < length items))]\<rparr>)) \<and>
          mset (map (\<lambda>s. (Name (RevisionTemplateSpec.ObjectMeta (Template (Service.Spec s))),
                          RevisionTemplateSpec.Spec (Template (Service.Spec s)))) hist) =
          mset (map (\<lambda>r. (Name (Revision.ObjectMeta r), Revision.Spec r))
                  (filter (kept h latestSvc) items)) \<and>
          (sortModelled h items \<longrightarrow>
             map (\<lambda>s. (Name (RevisionTemplateSpec.ObjectMeta (Template (Service.Spec s))),
                       RevisionTemplateSpec.Spec (Template (Service.Spec s)))) hist =
             map (\<lambda>r. (Name (Revision.ObjectMeta r), Revision.Spec r))
               (historicalRevisions h latestSvc items)) \<and>
          (\<forall>s\<in>set hist.
             Service.TypeMeta s = Service.TypeMeta latestSvc \<and>
             Service.ObjectMeta s =
               \<lparr>Name = Name (Service.ObjectMeta latestSvc), Namespace = [],
                Labels = Labels (Service.ObjectMeta latestSvc),
                Annotations = Annotations (Service.ObjectMeta latestSvc)\<rparr> \<and>
             RouteSpec (Service.Spec s) = \<lparr>Traffic = None\<rparr>)))"
proof (intro conjI impI)
  show "snd (exportServiceListForReplay h latestSvc listRevisions False) =
     Inr (ServiceObject (snd (exportLatestService h latestSvc False)))"
    by (simp add: exportServiceListForReplay_def case_prod_beta)
next
  assume ne: "items \<noteq> []"
  let ?hist = "snd (replayItems h latestSvc (getRoutedRevisions h latestSvc)
                      (sortRevisions h items) [])"
  let ?h' = "fst (exportLatestService
             (fst (replayItems h latestSvc (getRoutedRevisions h latestSvc)
                     (sortRevisions h items) []))
             latestSvc (1 < length items))"
  have a: "exportServiceListForReplay h latestSvc (Inr items) True =
            (?h', Inr (ServiceListObject
                        \<lparr>ServiceList.TypeMeta = \<lparr>Kind = ''List'', APIVersion = ''v1''\<rparr>,
                         Items = ?hist @ [snd (exportLatestService h latestSvc
                                                (1 < length items))]\<rparr>))"
    by (rule exportServiceListForReplay_True [OF ne])
  have b: "map (\<lambda>s. (Name (RevisionTemplateSpec.ObjectMeta (Template (Service.Spec s))),
                       RevisionTemplateSpec.Spec (Template (Service.Spec s)))) ?hist =
             map (\<lambda>r. (Name (Revision.ObjectMeta r), Revision.Spec r))
               (historicalRevisions h latestSvc items)"
    by (rule replay_history)
  have c: "mset (map (\<lambda>s. (Name (RevisionTemplateSpec.ObjectMeta (Template (Service.Spec s))),
                          RevisionTemplateSpec.Spec (Template (Service.Spec s)))) ?hist) =
          mset (map (\<lambda>r. (Name (Revision.ObjectMeta r), Revision.Spec r))
                  (filter (kept h latestSvc) items))"
    unfolding b by (rule mset_historicalRevisions)
  have d: "\<forall>s\<in>set ?hist.
             Service.TypeMeta s = Service.TypeMeta latestSvc \<and>
             Service.ObjectMeta s =
               \<lparr>Name = Name (Service.ObjectMeta latestSvc), Namespace = [],
                Labels = Labels (Service.ObjectMeta latestSvc),
                Annotations = Annotations (Service.ObjectMeta latestSvc)\<rparr> \<and>
             RouteSpec (Service.Spec s) = \<lparr>Traffic = None\<rparr>"
    using replayItems_services [of _ h latestSvc "getRoutedRevisions h latestSvc"
        "sortRevisions h items" "[]"]
    by auto
  show "\<exists>h' hist.
          exportServiceListForReplay h latestSvc (Inr items) True =
            (h', Inr (ServiceListObject
                        \<lparr>ServiceList.TypeMeta = \<lparr>Kind = ''List'', APIVersion = ''v1''\<rparr>,
                         Items = hist @ [snd (exportLatestService h latestSvc
                                                (1 < length items))]\<rparr>)) \<and>
          mset (map (\<lambda>s. (Name (RevisionTemplateSpec.ObjectMeta (Template (Service.Spec s))),
                          RevisionTemplateSpec.Spec (Template (Service.Spec s)))) hist) =
          mset (map (\<lambda>r. (Name (Revision.ObjectMeta r), Revision.Spec r))
                  (filter (kept h latestSvc) items)) \<and>
          (sortModelled h items \<longrightarrow>
             map (\<lambda>s. (Name (RevisionTemplateSpec.ObjectMeta (Template (Service.Spec s))),
                       RevisionTemplateSpec.Spec (Template (Service.Spec s)))) hist =
             map (\<lambda>r. (Name (Revision.ObjectMeta r), Revision.Spec r))
               (historicalRevisions h latestSvc items)) \<and>
          (\<forall>s\<in>set hist.
             Service.TypeMeta s = Service.TypeMeta latestSvc \<and>
             Service.ObjectMeta s =
               \<lparr>Name = Name (Service.ObjectMeta latestSvc), Namespace = [],
                Labels = Labels (Service.ObjectMeta latestSvc),
                Annotations = Annotations (Service.ObjectMeta latestSvc)\<rparr> \<and>
             RouteSpec (Service.Spec s) = \<lparr>Traffic = None\<rparr>)"
    using a b c d by (intro exI [of _ ?h'] exI [of _ ?hist] conjI impI)
qed

theorem replay_artifact_shape_witness:
  "ex_items2 \<noteq> [] \<and>
   sortModelled ex_store2 ex_items2 \<and>
   (\<exists>h' hist.
      exportServiceListForReplay ex_store2 ex_service2 (Inr ex_items2) True =
        (h', Inr (ServiceListObject
                    \<lparr>ServiceList.TypeMeta = \<lparr>Kind = ''List'', APIVersion = ''v1''\<rparr>,
                     Items = hist @ [snd (exportLatestService ex_store2 ex_service2 True)]\<rparr>)) \<and>
      map (\<lambda>s. (Name (RevisionTemplateSpec.ObjectMeta (Template (Service.Spec s))),
                RevisionTemplateSpec.Spec (Template (Service.Spec s)))) hist =
        [(''foo-00001'', 1), (''foo-00002'', 2)] \<and>
      map (\<lambda>s. Name (Service.ObjectMeta s)) hist = [''foo'', ''foo''])"
proof -
  have ne: "ex_items2 \<noteq> []" by (simp add: ex_items2_def)
  have len: "(1 < length ex_items2) = True" by (simp add: ex_items2_def)
  from replay_artifact_shape [of ex_store2 ex_service2 _ ex_items2, THEN conjunct2,
      THEN mp, OF ne]
  obtain h1 hist where a:
    "exportServiceListForReplay ex_store2 ex_service2 (Inr ex_items2) True =
        (h1, Inr (ServiceListObject
                    \<lparr>ServiceList.TypeMeta = \<lparr>Kind = ''List'', APIVersion = ''v1''\<rparr>,
                     Items = hist @ [snd (exportLatestService ex_store2 ex_service2
                                            (1 < length ex_items2))]\<rparr>))"
    "sortModelled ex_store2 ex_items2 \<longrightarrow>
       map (\<lambda>s. (Name (RevisionTemplateSpec.ObjectMeta (Template (Service.Spec s))),
                 RevisionTemplateSpec.Spec (Template (Service.Spec s)))) hist =
       map (\<lambda>r. (Name (Revision.ObjectMeta r), Revision.Spec r))
         (historicalRevisions ex_store2 ex_service2 ex_items2)"
    "\<forall>s\<in>set hist.
       Service.TypeMeta s = Service.TypeMeta ex_service2 \<and>
       Service.ObjectMeta s =
         \<lparr>Name = Name (Service.ObjectMeta ex_service2), Namespace = [],
          Labels = Labels (Service.ObjectMeta ex_service2),
          Annotations = Annotations (Service.ObjectMeta ex_service2)\<rparr> \<and>
       RouteSpec (Service.Spec s) = \<lparr>Traffic = None\<rparr>"
    by (elim exE conjE) (rule that)
  note p = mp [OF a(2) ex2_sortModelled, unfolded ex2_pairs]
  have "length hist = 2" using arg_cong [OF p, of length] by simp
  then obtain s1 s2 where hist: "hist = [s1, s2]"
    by (cases hist; cases "tl hist"; cases "tl (tl hist)") auto
  have n: "map (\<lambda>s. Name (Service.ObjectMeta s)) hist = [''foo'', ''foo'']"
    using a(3) unfolding hist by (simp add: ex_service2_def)
  show ?thesis
    using ne ex2_sortModelled a(1) [unfolded len] p n by (intro conjI exI)
qed

text \<open>
  The claim as stated includes the case without history. There the object handed to the
  printer is a bare service.
\<close>

theorem replay_without_history_is_a_bare_service:
  "snd (exportServiceListForReplay ex_store ex_service (Inr ex_items) False) =
     Inr (ServiceObject
            \<lparr>Service.TypeMeta = \<lparr>Kind = ''Service'', APIVersion = ''serving.knative.dev/v1''\<rparr>,
             Service.ObjectMeta =
               \<lparr>Name = ''foo'', Namespace = [], Labels = Some 0, Annotations = Some 1\<rparr>,
             Service.Spec =
               \<lparr>Template =
                  \<lparr>RevisionTemplateSpec.ObjectMeta =
                     \<lparr>Name = ''foo-00002'', Namespace = [], Labels = Some 2,
                        Annotations = Some 3\<rparr>,
                   RevisionTemplateSpec.Spec = 2\<rparr>,
                RouteSpec = \<lparr>Traffic = None\<rparr>\<rparr>,
             Service.Status =
               \<lparr>LatestReadyRevisionName = [], LatestCreatedRevisionName = []\<rparr>\<rparr>)"
  by (simp add: exportServiceListForReplay_def case_prod_beta exportLatestService_snd
        ex_service_def)

subsection \<open>The labels of a historical service\<close>

text \<open>
  The service that \<^verbatim>\<open>constructServiceFromRevision\<close> returns has no key of the service
  annotation deny-list in its annotations.
\<close>

lemma historical_service_annotations_stripped:
  "(let (h', e) = constructServiceFromRevision h latestSvc revision
    in dom (entries h' (Annotations (Service.ObjectMeta e)))) \<inter>
   set IgnoredServiceAnnotations = {}"
  by (cases "Annotations (Service.ObjectMeta latestSvc)")
     (auto simp add: case_prod_beta constructServiceFromRevision_snd
        constructServiceFromRevision_maps entries_def restrict_map_def dom_def
        split: if_splits)

text \<open>
  Claim C8. \<^verbatim>\<open>constructServiceFromRevision\<close> strips the annotations of the service it
  builds and not its labels: the label \<open>serving.knative.dev/serviceUID\<close> of the live
  service is still in the label map of the service it returns.
\<close>

theorem historical_service_keeps_denied_label:
  "(let (h', e) = constructServiceFromRevision ex_store ex_service ex_revision1
    in entries h' (Labels (Service.ObjectMeta e)) ''serving.knative.dev/serviceUID'') =
   Some ''u1''"
  by (simp add: case_prod_beta constructServiceFromRevision_snd constructServiceFromRevision_maps
        entries_def ex_service_def ex_revision1_def ex_store_def restrict_map_def)

text \<open>
  In the replay export the label map of every item is the live service's own map, and
  the call of \<^verbatim>\<open>exportLatestService\<close> that ends the export strips it: when the list is
  returned, no item has a key of the label deny-list any more.
\<close>

lemma replay_strips_shared_labels:
  assumes "items \<noteq> []" "Labels (Service.ObjectMeta latestSvc) = Some a"
    "k \<in> set IgnoredServiceLabels"
  shows "maps (fst (exportServiceListForReplay h latestSvc (Inr items) True)) a k = None"
  using assms(2,3)
  by (simp add: exportServiceListForReplay_True [OF assms(1)] exportLatestService_maps
        restrict_map_def)

end
